theory Spec2Isabelle
  imports Complex_Main "HOL-Library.Word" "HOL-Library.Log_Nat"
begin

section \<open>Errors\<close>

text \<open>
  The C++ sources signal failure by throwing. Every throw is a value here:
  \<open>OutOfRange\<close> is \<open>std::out_of_range\<close> (thrown by \<open>std::bitset::set\<close> and
  \<open>std::bitset::test\<close> for a position beyond the width), \<open>InvalidArgument\<close> is
  \<open>std::invalid_argument\<close> with its message, \<open>BadCast\<close> is the failed conversion of a
  \<open>Value\<close> to the object type asked for. A function that may throw returns
  \<open>error + 'a\<close>, with \<open>Inl\<close> for the exception.
\<close>

datatype error = OutOfRange | InvalidArgument string | BadCast

section \<open>Double-precision arithmetic\<close>

text \<open>
  The \<open>double\<close> values of the sources are IEEE 754 binary64 numbers. A finite double is
  the real number it denotes: an integer multiple of \<open>2 ^ (e - 52)\<close> of magnitude at most
  \<open>2 ^ (e + 1)\<close>, for an exponent \<open>e\<close> from -1022 to 1023. An arithmetic operation on
  doubles yields the exact result rounded to the nearest double, a tie going to the
  double with the even significand (the default rounding mode). Every operation of an
  expression is rounded on its own, in \<open>double\<close> precision: this is the evaluation of a
  compiler that keeps no intermediate result in a wider format and does not fuse a
  multiplication with an addition. A decimal literal and a converted integer denote the
  double nearest to them. The infinities and NaN are not represented: the operations
  below are those on finite operands with a result of magnitude below \<open>2 ^ 1024\<close>.

  \<open>pow2 e\<close> is \<open>2\<close> to the power \<open>e\<close>. For \<open>x > 0\<close>, \<open>double_exponent x\<close> is the exponent \<open>e\<close> with
  \<open>2 ^ e \<le> x < 2 ^ (e + 1)\<close>, and -1022 for a smaller \<open>x\<close>: the spacing of the doubles
  around \<open>x\<close> is \<open>2 ^ (e - 52)\<close>. \<open>round_half_even\<close> rounds to the nearest integer, a tie to
  the even one.
\<close>

definition pow2 :: "int \<Rightarrow> real" where
  "pow2 e = (if 0 \<le> e then 2 ^ nat e else 1 / 2 ^ nat (- e))"

definition double_exponent :: "real \<Rightarrow> int" where
  "double_exponent x =
     max (- 1022)
       (if 1 \<le> x then bitlen \<lfloor>x\<rfloor> - 1
        else (let k = bitlen \<lfloor>1 / x\<rfloor> - 1 in if 1 / x = 2 ^ nat k then - k else - k - 1))"

definition round_half_even :: "real \<Rightarrow> int" where
  "round_half_even q =
     (let n = \<lfloor>q\<rfloor>; r = q - of_int n
      in if r < 1 / 2 then n else if 1 / 2 < r then n + 1 else if even n then n else n + 1)"

definition double_round :: "real \<Rightarrow> real" where
  "double_round x =
     (if x = 0 then 0
      else (let ulp = pow2 (double_exponent \<bar>x\<bar> - 52)
            in of_int (round_half_even (x / ulp)) * ulp))"

definition double_add :: "real \<Rightarrow> real \<Rightarrow> real" where
  "double_add a b = double_round (a + b)"

definition double_mul :: "real \<Rightarrow> real \<Rightarrow> real" where
  "double_mul a b = double_round (a * b)"

definition double_div :: "real \<Rightarrow> real \<Rightarrow> real" where
  "double_div a b = double_round (a / b)"

definition double_of_int :: "int \<Rightarrow> real" where
  "double_of_int i = double_round (of_int i)"

definition double_literal :: "real \<Rightarrow> real" where
  "double_literal r = double_round r"

text \<open>
  The relative error of one rounding is at most \<open>unit_roundoff\<close>, and
  \<open>within_roundings n x X\<close> says that \<open>x\<close> is \<open>X\<close> up to \<open>n\<close> such errors.
\<close>

definition unit_roundoff :: real where
  "unit_roundoff = 1 / 2 ^ 53"

definition within_roundings :: "nat \<Rightarrow> real \<Rightarrow> real \<Rightarrow> bool" where
  "within_roundings n x X \<longleftrightarrow>
     X * (1 - unit_roundoff) ^ n \<le> x \<and> x \<le> X * (1 + unit_roundoff) ^ n"

section \<open>Flapping detection (lib/icinga/checkable-flapping.cpp)\<close>

text \<open>
  Modelled from the spec: the attribute declarations of \<open>Checkable\<close>, from which its
  accessors are generated, are not among the sources. The spec's entity has a "flapping
  state (bool), flapping buffer (20-bit history), flapping index (next write position),
  flapping current value, flapping last-change timestamp"; the two thresholds and the
  enable flag are the other attributes the two functions read. Each getter reads and
  each setter writes one field. \<open>int\<close> attributes are \<open>int\<close>; a \<open>double\<close> attribute is the
  real number that the stored double denotes.
\<close>

record checkable =
  flapping_buffer :: int
  flapping_index :: int
  flapping_current :: real
  flapping :: bool
  flapping_last_change :: real
  flapping_threshold_low :: real
  flapping_threshold_high :: real
  enable_flapping :: bool

definition SetFlappingBuffer :: "int \<Rightarrow> checkable \<Rightarrow> checkable" where
  "SetFlappingBuffer v c = c\<lparr>flapping_buffer := v\<rparr>"

definition SetFlappingIndex :: "int \<Rightarrow> checkable \<Rightarrow> checkable" where
  "SetFlappingIndex v c = c\<lparr>flapping_index := v\<rparr>"

definition SetFlappingCurrent :: "real \<Rightarrow> checkable \<Rightarrow> checkable" where
  "SetFlappingCurrent v c = c\<lparr>flapping_current := v\<rparr>"

text \<open>
  \<open>SetFlapping(value, suppress_events)\<close>: the second argument only decides whether the
  change notification is sent; the field is written either way.
\<close>

definition SetFlapping :: "bool \<Rightarrow> bool \<Rightarrow> checkable \<Rightarrow> checkable" where
  "SetFlapping v suppress_events c = c\<lparr>flapping := v\<rparr>"

definition SetFlappingLastChange :: "real \<Rightarrow> checkable \<Rightarrow> checkable" where
  "SetFlappingLastChange v c = c\<lparr>flapping_last_change := v\<rparr>"

text \<open>
  \<open>std::bitset<20>\<close> is a 20-bit word. Its constructor keeps the low 20 bits of the
  integer it is given (\<open>word_of_int\<close>), \<open>to_ulong\<close> is \<open>uint\<close>. \<open>set(pos, val)\<close> and
  \<open>test(pos)\<close> take a \<open>size_t\<close>: a negative \<open>int\<close> converts to a value far beyond the
  width, so both throw \<open>std::out_of_range\<close> unless \<open>0 \<le> pos < 20\<close>.
\<close>

definition bitset_set :: "20 word \<Rightarrow> int \<Rightarrow> bool \<Rightarrow> error + 20 word" where
  "bitset_set b pos v =
     (if pos < 0 \<or> 20 \<le> pos then Inl OutOfRange
      else Inr (if v then set_bit (nat pos) b else unset_bit (nat pos) b))"

definition bitset_test :: "20 word \<Rightarrow> int \<Rightarrow> error + bool" where
  "bitset_test b pos =
     (if pos < 0 \<or> 20 \<le> pos then Inl OutOfRange else Inr (bit b (nat pos)))"

text \<open>
  The loop \<open>for (int i = 0; i < 20; i++)\<close> of \<open>UpdateFlappingStatus\<close>, with the loop
  counter and the accumulator \<open>stateChanges\<close> as arguments. The statement
  \<open>stateChanges += 0.8 + (0.02 * i)\<close> converts \<open>i\<close> and performs one multiplication and
  two additions on doubles. \<open>%\<close> is applied to non-negative operands only (the index has
  passed \<open>bitset::set\<close>), where C's truncating remainder and \<open>mod\<close> agree.
\<close>

function UpdateFlappingStatus_loop :: "20 word \<Rightarrow> int \<Rightarrow> int \<Rightarrow> real \<Rightarrow> error + real" where
  "UpdateFlappingStatus_loop stateChangeBuf oldestIndex i stateChanges =
     (if i < 20 then
        (case bitset_test stateChangeBuf ((oldestIndex + i) mod 20) of
           Inl e \<Rightarrow> Inl e
         | Inr t \<Rightarrow>
             UpdateFlappingStatus_loop stateChangeBuf oldestIndex (i + 1)
               (if t
                then double_add stateChanges
                       (double_add (double_literal 0.8)
                          (double_mul (double_literal 0.02) (double_of_int i)))
                else stateChanges))
      else Inr stateChanges)"
  by pat_completeness auto
termination
  by (relation "measure (\<lambda>(stateChangeBuf, oldestIndex, i, stateChanges). nat (20 - i))") auto

text \<open>
  \<open>Checkable::UpdateFlappingStatus(stateChange)\<close>. \<open>now\<close> is what \<open>Utility::GetTime()\<close>
  returns. The statements are kept in the order of the source: \<open>double stateChanges = 0\<close>,
  the loop, \<open>100.0 * stateChanges / 20.0\<close> (a multiplication, then a division), the
  comparison with the threshold, the four setters, and the comparison
  \<open>flapping != GetFlapping()\<close> after them, on the object as \<open>SetFlapping\<close> has left it.
\<close>

definition UpdateFlappingStatus :: "real \<Rightarrow> bool \<Rightarrow> checkable \<Rightarrow> error + checkable" where
  "UpdateFlappingStatus now stateChange c =
     (let flappingBuffer = flapping_buffer c;
          oldestIndex = flapping_index c
      in case bitset_set (word_of_int flappingBuffer) oldestIndex stateChange of
           Inl e \<Rightarrow> Inl e
         | Inr stateChangeBuf \<Rightarrow>
             (let oldestIndex' = (oldestIndex + 1) mod 20
              in case UpdateFlappingStatus_loop stateChangeBuf oldestIndex' 0 (double_of_int 0) of
                   Inl e \<Rightarrow> Inl e
                 | Inr stateChanges \<Rightarrow>
                     (let flappingValue =
                            double_div (double_mul (double_literal 100.0) stateChanges)
                              (double_literal 20.0);
                          flapping' =
                            (if flapping c then flappingValue > flapping_threshold_low c
                             else flappingValue > flapping_threshold_high c);
                          c1 = SetFlappingBuffer (uint stateChangeBuf) c;
                          c2 = SetFlappingIndex oldestIndex' c1;
                          c3 = SetFlappingCurrent flappingValue c2;
                          c4 = SetFlapping flapping' True c3
                      in Inr (if flapping' \<noteq> flapping c4
                              then SetFlappingLastChange now c4 else c4))))"

text \<open>
  \<open>Checkable::IsFlapping\<close>; \<open>app_enable_flapping\<close> is the flag of the application
  instance.
\<close>

definition IsFlapping :: "bool \<Rightarrow> checkable \<Rightarrow> bool" where
  "IsFlapping app_enable_flapping c =
     (if \<not> enable_flapping c \<or> \<not> app_enable_flapping then False else flapping c)"

text \<open>
  The weighted total as the specification words it, in the arithmetic of the source:
  the slot that the loop visits at step \<open>i\<close> (the oldest one at \<open>i = 0\<close>) contributes the
  double \<open>0.8 + 0.02 * i\<close> when its bit is set, and the contributions are added up from
  the oldest slot on. \<open>buffer\<close> and \<open>index\<close> are the stored buffer and write index.
  \<open>exact_weighted_sum\<close> is the same total in exact arithmetic.
\<close>

definition slot_weight :: "nat \<Rightarrow> real" where
  "slot_weight i =
     double_add (double_literal 0.8) (double_mul (double_literal 0.02) (double_of_int (int i)))"

definition weighted_sum :: "int \<Rightarrow> int \<Rightarrow> real" where
  "weighted_sum buffer index =
     foldl (\<lambda>W i. if bit buffer (nat ((index + int i) mod 20)) then double_add W (slot_weight i)
                  else W)
       0 [0..<20]"

definition exact_weighted_sum :: "int \<Rightarrow> int \<Rightarrow> real" where
  "exact_weighted_sum buffer index =
     (\<Sum>i<20. if bit buffer (nat ((index + int i) mod 20)) then 0.8 + 0.02 * real i else 0)"

section \<open>Values, dictionaries and objects (lib/icinga/host.cpp)\<close>

text \<open>
  Modelled from the spec: \<open>Value\<close> and \<open>Dictionary\<close> belong to the base library, which
  is not among the sources. \<open>host.cpp\<close> tells an empty value, a scalar ("a bare
  reference", kept as the string it converts to), a \<open>Dictionary\<close> object ("an inline
  object") and any other object apart. A \<open>Dictionary\<close> maps keys to values, one entry
  per key: an association list in iteration order. \<open>Get\<close> on a missing key returns the
  empty value.
\<close>

datatype Value = Empty | Scalar string | DictionaryObject "(string \<times> Value) list" | OtherObject

definition IsScalar :: "Value \<Rightarrow> bool" where
  "IsScalar v = (case v of Scalar s \<Rightarrow> True | _ \<Rightarrow> False)"

definition IsDictionary :: "Value \<Rightarrow> bool" where
  "IsDictionary v = (case v of DictionaryObject d \<Rightarrow> True | _ \<Rightarrow> False)"

definition Dictionary_Get :: "(string \<times> Value) list \<Rightarrow> string \<Rightarrow> Value" where
  "Dictionary_Get d key = (case map_of d key of None \<Rightarrow> Empty | Some v \<Rightarrow> v)"

definition Dictionary_Contains :: "('k \<times> 'v) list \<Rightarrow> 'k \<Rightarrow> bool" where
  "Dictionary_Contains d key = (map_of d key \<noteq> None)"

text \<open>
  \<open>Set\<close> replaces the value of a key that is present and adds the entry otherwise. The
  new entry is put last. The handler below adds its keys in ascending order, where
  this is the place an ordered map gives it; for the registries the order of the list
  stands for the iteration order, and no property below depends on which it is.
\<close>

fun Dictionary_Set :: "('k \<times> 'v) list \<Rightarrow> 'k \<Rightarrow> 'v \<Rightarrow> ('k \<times> 'v) list" where
  "Dictionary_Set [] key v = [(key, v)]"
| "Dictionary_Set ((k, x) # d) key v =
     (if k = key then (k, v) # d else (k, x) # Dictionary_Set d key v)"

text \<open>
  The conversion of a \<open>Value\<close> to \<open>String\<close>: the empty value gives the empty string, an
  object cannot be converted and the conversion throws.
\<close>

definition Value_to_String :: "Value \<Rightarrow> error + string" where
  "Value_to_String v =
     (case v of Empty \<Rightarrow> Inr [] | Scalar s \<Rightarrow> Inr s
      | DictionaryObject d \<Rightarrow> Inl BadCast | OtherObject \<Rightarrow> Inl BadCast)"

text \<open>
  Modelled from the spec: the service states and state types are declared in a header
  that is not among the sources. The spec has the states OK, Warning and Critical and
  the state types soft and hard; \<open>host.cpp\<close> tells \<open>StateOK\<close> and \<open>StateWarning\<close> from
  every other state, and \<open>StateTypeSoft\<close> from the other state type.
\<close>

datatype ServiceState =
  StateOK | StateWarning | StateCritical | StateUnknown | StateUnreachable | StateUncheckable

datatype ServiceStateType = StateTypeSoft | StateTypeHard

text \<open>
  A service object, with what \<open>host.cpp\<close> reads of it: its name, the host name it
  declares, its last check result (a null pointer before the first check), its state
  type and state. \<open>service_addr\<close> is the identity of the object: a weak pointer to a
  service is its address, and the address of a registered object is never reused.
\<close>

record service =
  service_name :: string
  service_host_name :: string
  last_check_result :: "(string \<times> Value) list option"
  service_state_type :: ServiceStateType
  service_state :: ServiceState
  service_addr :: nat

text \<open>
  Modelled from the spec: \<open>ConfigItemBuilder\<close> and \<open>ConfigItem\<close> are not among the
  sources. In the spec a synthesized service is derived from a declaration by copying
  attributes and naming a parent; an item here is what the handler gives the builder:
  type, name, parents and the expressions added, in the order of the calls. \<open>Compile\<close>
  yields the item with these.
\<close>

datatype ExpressionOperator = OperatorSet | OperatorPlus

record config_item =
  item_type :: string
  item_name :: string
  item_parents :: "string list"
  item_expressions :: "(string \<times> ExpressionOperator \<times> Value) list"
  item_debug_info :: string

definition ConfigItemBuilder :: "string \<Rightarrow> config_item" where
  "ConfigItemBuilder debug_info =
     \<lparr>item_type = [], item_name = [], item_parents = [], item_expressions = [],
      item_debug_info = debug_info\<rparr>"

definition SetType :: "string \<Rightarrow> config_item \<Rightarrow> config_item" where
  "SetType t b = b\<lparr>item_type := t\<rparr>"

definition SetName :: "string \<Rightarrow> config_item \<Rightarrow> config_item" where
  "SetName n b = b\<lparr>item_name := n\<rparr>"

definition AddExpression ::
  "string \<Rightarrow> ExpressionOperator \<Rightarrow> Value \<Rightarrow> config_item \<Rightarrow> config_item" where
  "AddExpression key operator v b = b\<lparr>item_expressions := item_expressions b @ [(key, operator, v)]\<rparr>"

definition AddParent :: "string \<Rightarrow> config_item \<Rightarrow> config_item" where
  "AddParent parent b = b\<lparr>item_parents := item_parents b @ [parent]\<rparr>"

definition Compile :: "config_item \<Rightarrow> config_item" where
  "Compile b = b"

text \<open>
  A host object. \<open>host_attrs\<close> holds the attributes read as plain values (\<open>macros\<close>,
  \<open>check_interval\<close>, \<open>retry_interval\<close>, \<open>servicegroups\<close>, \<open>checkers\<close>). Each other
  attribute has the type its getter converts it to; a \<open>Dictionary::Ptr\<close> is \<open>None\<close>
  when the attribute is not set. The values of \<open>convenience_services\<close> are
  \<open>ConfigItem::Ptr\<close>, \<open>None\<close> for a null pointer. \<open>acknowledgement\<close> holds the integer
  that \<open>SetAcknowledgement\<close> stores, \<open>acknowledgement_expiry\<close> a \<open>double\<close>; both are
  \<open>None\<close> while the attribute is empty.
\<close>

record host =
  host_name :: string
  host_attrs :: "(string \<times> Value) list"
  host_services :: "(string \<times> Value) list option"
  convenience_services :: "(string \<times> config_item option) list option"
  hostdependencies :: "(string \<times> Value) list option"
  servicedependencies :: "(string \<times> Value) list option"
  hostchecks :: "(string \<times> Value) list option"
  acknowledgement :: "int option"
  acknowledgement_expiry :: "real option"

definition Host_Get :: "host \<Rightarrow> string \<Rightarrow> Value" where
  "Host_Get h key = Dictionary_Get (host_attrs h) key"

text \<open>
  What the handler asks of the configuration registry, in the order of the calls, and
  its final store into the host.
\<close>

datatype registry_call =
  Committed string | Unregistered string | ConvenienceServicesSet string "string list"

text \<open>
  The process-wide state: the registered host and service objects by name (the
  objects of the dynamic types \<open>Host\<close> and \<open>Service\<close>), the next free object address,
  the registered configuration items by type and name, the statics
  \<open>m_ServicesCache\<close> (host name to weak pointers; a missing key reads as the empty
  vector) and \<open>m_ServicesCacheValid\<close>, the errors added to the configuration compiler
  context, and the calls made to the configuration registry.
\<close>

record world =
  hosts :: "(string \<times> host) list"
  services :: "(string \<times> service) list"
  next_addr :: nat
  config_items :: "((string \<times> string) \<times> config_item) list"
  m_ServicesCache :: "string \<Rightarrow> nat list"
  m_ServicesCacheValid :: bool
  compiler_errors :: "(bool \<times> string) list"
  registry_calls :: "registry_call list"

text \<open>
  The state of a freshly started process: nothing registered, and the statics as
  \<open>host.cpp\<close> initialises them (the cache empty and marked valid).
\<close>

definition initial_world :: world where
  "initial_world =
     \<lparr>hosts = [], services = [], next_addr = 0, config_items = [],
      m_ServicesCache = (\<lambda>n. []), m_ServicesCacheValid = True, compiler_errors = [],
      registry_calls = []\<rparr>"

section \<open>The entity registry\<close>

definition Host_Exists :: "world \<Rightarrow> string \<Rightarrow> bool" where
  "Host_Exists w name = (map_of (hosts w) name \<noteq> None)"

definition Host_GetByName :: "world \<Rightarrow> string \<Rightarrow> error + host" where
  "Host_GetByName w name =
     (case map_of (hosts w) name of
        None \<Rightarrow> Inl (InvalidArgument (''Host '' @ [CHR 0x27] @ name @ [CHR 0x27] @ '' does not exist.''))
      | Some h \<Rightarrow> Inr h)"

text \<open>
  Modelled from the spec: \<open>Service::Exists\<close> and \<open>Service::GetByName\<close> are defined in
  service.cpp, which is not among the sources. The spec's entity registry has
  \<open>Exists(name) -> bool\<close> and \<open>GetByName(name) -> Entity\<close>, which "fails with NotFound
  if absent"; the failure is the one \<open>Host::GetByName\<close> throws.
\<close>

definition Service_Exists :: "world \<Rightarrow> string \<Rightarrow> bool" where
  "Service_Exists w name = (map_of (services w) name \<noteq> None)"

definition Service_GetByName :: "world \<Rightarrow> string \<Rightarrow> error + service" where
  "Service_GetByName w name =
     (case map_of (services w) name of
        None \<Rightarrow> Inl (InvalidArgument (''Service '' @ [CHR 0x27] @ name @ [CHR 0x27] @ '' does not exist.''))
      | Some s \<Rightarrow> Inr s)"

text \<open>
  Modelled from the spec: registration and unregistration of service objects
  (\<open>DynamicObject::Register\<close> and \<open>Unregister\<close>) are not among the sources. The spec's
  registry has \<open>Register(entity)\<close> and \<open>Unregister(name)\<close> and keeps names unique. A
  registered object gets a fresh address; registering under a name in use replaces
  the object of that name, which is destroyed, as is an unregistered one.
\<close>

definition Service_Register :: "service \<Rightarrow> world \<Rightarrow> world" where
  "Service_Register s w =
     w\<lparr>services := Dictionary_Set (services w) (service_name s) (s\<lparr>service_addr := next_addr w\<rparr>),
       next_addr := Suc (next_addr w)\<rparr>"

definition Service_Unregister :: "string \<Rightarrow> world \<Rightarrow> world" where
  "Service_Unregister name w = w\<lparr>services := filter (\<lambda>(n, s). n \<noteq> name) (services w)\<rparr>"

datatype registry_op = Register service | Unregister string

fun apply_op :: "registry_op \<Rightarrow> world \<Rightarrow> world" where
  "apply_op (Register s) w = Service_Register s w"
| "apply_op (Unregister name) w = Service_Unregister name w"

fun apply_ops :: "registry_op list \<Rightarrow> world \<Rightarrow> world" where
  "apply_ops [] w = w"
| "apply_ops (x # xs) w = apply_ops xs (apply_op x w)"

text \<open>
  Modelled from the spec: \<open>ConfigItem::Commit\<close>, \<open>ConfigItem::Unregister\<close> and
  \<open>ConfigItem::GetObject\<close> are not among the sources. Committing an item registers it
  under its type and name, unregistering removes what is registered under its type
  and name, \<open>GetObject\<close> looks a type and name up.
\<close>

definition ConfigItem_Commit :: "config_item \<Rightarrow> world \<Rightarrow> world" where
  "ConfigItem_Commit item w =
     w\<lparr>config_items := Dictionary_Set (config_items w) (item_type item, item_name item) item,
       registry_calls := registry_calls w @ [Committed (item_name item)]\<rparr>"

definition ConfigItem_Unregister :: "config_item \<Rightarrow> world \<Rightarrow> world" where
  "ConfigItem_Unregister item w =
     w\<lparr>config_items := filter (\<lambda>(k, i). k \<noteq> (item_type item, item_name item)) (config_items w),
       registry_calls := registry_calls w @ [Unregistered (item_name item)]\<rparr>"

definition ConfigItem_GetObject :: "world \<Rightarrow> string \<Rightarrow> string \<Rightarrow> config_item option" where
  "ConfigItem_GetObject w type name = map_of (config_items w) (type, name)"

text \<open>
  Modelled from the spec: \<open>ConfigCompilerContext\<close> is not among the sources. The spec's
  validation hook reports "one error per reference that does not resolve" to the
  configuration compiler: \<open>AddError(warning, message)\<close> adds the error to those the
  context has collected.
\<close>

definition AddError :: "bool \<Rightarrow> string \<Rightarrow> world \<Rightarrow> world" where
  "AddError warning message w = w\<lparr>compiler_errors := compiler_errors w @ [(warning, message)]\<rparr>"

section \<open>The dependency resolver\<close>

text \<open>
  \<open>std::set<Ptr>\<close> is a list without repetitions here. The source iterates such a set
  in the order of the pointers, which is not known here; the list keeps the order of
  insertion. The statements below are about the set of the elements, and the loops of
  \<open>IsReachable\<close> are shown to depend on that set only.
\<close>

definition Host_ResolveService :: "world \<Rightarrow> host \<Rightarrow> string \<Rightarrow> error + service" where
  "Host_ResolveService w h name =
     (let combinedName = host_name h @ ''-'' @ name
      in if Service_Exists w combinedName then Service_GetByName w combinedName
         else Service_GetByName w name)"

fun GetParentHosts_loop :: "world \<Rightarrow> host \<Rightarrow> string list \<Rightarrow> host list \<Rightarrow> error + host list" where
  "GetParentHosts_loop w h [] parents = Inr parents"
| "GetParentHosts_loop w h (key # keys) parents =
     (if key = host_name h then GetParentHosts_loop w h keys parents
      else case Host_GetByName w key of
             Inl e \<Rightarrow> Inl e
           | Inr p \<Rightarrow> GetParentHosts_loop w h keys (List.insert p parents))"

definition GetParentHosts :: "world \<Rightarrow> host \<Rightarrow> error + host list" where
  "GetParentHosts w h =
     (case hostdependencies h of
        None \<Rightarrow> Inr []
      | Some dependencies \<Rightarrow> GetParentHosts_loop w h (map fst dependencies) [])"

fun GetParentServices_loop ::
  "world \<Rightarrow> host \<Rightarrow> string list \<Rightarrow> service list \<Rightarrow> error + service list" where
  "GetParentServices_loop w h [] parents = Inr parents"
| "GetParentServices_loop w h (key # keys) parents =
     (case Host_ResolveService w h key of
        Inl e \<Rightarrow> Inl e
      | Inr s \<Rightarrow> GetParentServices_loop w h keys (List.insert s parents))"

definition GetParentServices :: "world \<Rightarrow> host \<Rightarrow> error + service list" where
  "GetParentServices w h =
     (case servicedependencies h of
        None \<Rightarrow> Inr []
      | Some dependencies \<Rightarrow> GetParentServices_loop w h (map fst dependencies) [])"






section \<open>Acknowledgements\<close>

text \<open>
  Modelled from the spec: \<open>AcknowledgementType\<close> is an enumeration declared in a header
  that is not among the sources; the spec has the types none, normal and sticky. Its
  values are the integers the attribute stores, and the casts between the two leave
  the integer as it is.
\<close>

type_synonym AcknowledgementType = int

definition AcknowledgementNone :: AcknowledgementType where
  "AcknowledgementNone = 0"

definition AcknowledgementNormal :: AcknowledgementType where
  "AcknowledgementNormal = 1"

definition AcknowledgementSticky :: AcknowledgementType where
  "AcknowledgementSticky = 2"

definition SetAcknowledgement :: "AcknowledgementType \<Rightarrow> host \<Rightarrow> host" where
  "SetAcknowledgement ack h = h\<lparr>acknowledgement := Some ack\<rparr>"

definition GetAcknowledgementExpiry :: "host \<Rightarrow> real" where
  "GetAcknowledgementExpiry h =
     (case acknowledgement_expiry h of None \<Rightarrow> 0 | Some v \<Rightarrow> v)"

definition SetAcknowledgementExpiry :: "real \<Rightarrow> host \<Rightarrow> host" where
  "SetAcknowledgementExpiry timestamp h = h\<lparr>acknowledgement_expiry := Some timestamp\<rparr>"

text \<open>
  \<open>Host::GetAcknowledgement\<close> returns the type and leaves the host as the second
  component; \<open>now\<close> is what \<open>Utility::GetTime()\<close> returns.
\<close>

definition GetAcknowledgement :: "real \<Rightarrow> host \<Rightarrow> AcknowledgementType \<times> host" where
  "GetAcknowledgement now h =
     (case acknowledgement h of
        None \<Rightarrow> (AcknowledgementNone, h)
      | Some ivalue \<Rightarrow>
          (let avalue = ivalue
           in if avalue \<noteq> AcknowledgementNone then
                (let expiry = GetAcknowledgementExpiry h
                 in if expiry \<noteq> 0 \<and> expiry < now then
                      (AcknowledgementNone,
                       SetAcknowledgementExpiry 0 (SetAcknowledgement AcknowledgementNone h))
                    else (avalue, h))
              else (avalue, h)))"

section \<open>The configuration change bridge\<close>

text \<open>
  \<open>CopyServiceAttributes\<close> is a template over the object it reads: \<open>get\<close> is that
  object's \<open>Get\<close> (of the host, or of the service dictionary).
\<close>

definition CopyServiceAttributes :: "(string \<Rightarrow> Value) \<Rightarrow> config_item \<Rightarrow> config_item" where
  "CopyServiceAttributes get builder =
     (let macros = get ''macros'';
          b1 = (if macros \<noteq> Empty then AddExpression ''macros'' OperatorPlus macros builder
                else builder);
          checkInterval = get ''check_interval'';
          b2 = (if checkInterval \<noteq> Empty
                then AddExpression ''check_interval'' OperatorSet checkInterval b1 else b1);
          retryInterval = get ''retry_interval'';
          b3 = (if retryInterval \<noteq> Empty
                then AddExpression ''retry_interval'' OperatorSet retryInterval b2 else b2);
          sgroups = get ''servicegroups'';
          b4 = (if sgroups \<noteq> Empty
                then AddExpression ''servicegroups'' OperatorPlus sgroups b3 else b3);
          checkers = get ''checkers'';
          b5 = (if checkers \<noteq> Empty
                then AddExpression ''checkers'' OperatorSet checkers b4 else b4)
      in b5)"

text \<open>
  The body of the loop over the host's \<open>services\<close> dictionary, up to the compiled item:
  the builder calls, and the three cases of the service description.
\<close>

definition build_service_item ::
  "config_item \<Rightarrow> host \<Rightarrow> string \<Rightarrow> Value \<Rightarrow> error + config_item" where
  "build_service_item item h svcname svcdesc =
     (let name = item_name item @ ''-'' @ svcname;
          b0 = ConfigItemBuilder (item_debug_info item);
          b1 = SetType ''Service'' b0;
          b2 = SetName name b1;
          b3 = AddExpression ''host_name'' OperatorSet (Scalar (item_name item)) b2;
          b4 = AddExpression ''alias'' OperatorSet (Scalar svcname) b3;
          b5 = CopyServiceAttributes (Host_Get h) b4
      in case svcdesc of
           Scalar parent \<Rightarrow> Inr (Compile (AddParent parent b5))
         | DictionaryObject service \<Rightarrow>
             (case Value_to_String (Dictionary_Get service ''service'') of
                Inl e \<Rightarrow> Inl e
              | Inr parent \<Rightarrow>
                  Inr (Compile (CopyServiceAttributes (Dictionary_Get service)
                         (AddParent (if parent = [] then svcname else parent) b5))))
         | Empty \<Rightarrow>
             Inl (InvalidArgument ''Service description must be either a string or a dictionary.'')
         | OtherObject \<Rightarrow>
             Inl (InvalidArgument ''Service description must be either a string or a dictionary.''))"

text \<open>
  The loop itself: every item is committed as soon as it is compiled and entered into
  \<open>newServices\<close>. An exception leaves the state as it is at the throw.
\<close>

fun ObjectCommittedHandler_build ::
  "config_item \<Rightarrow> host \<Rightarrow> (string \<times> Value) list \<Rightarrow> (string \<times> config_item option) list \<Rightarrow>
   world \<Rightarrow> (error + (string \<times> config_item option) list) \<times> world" where
  "ObjectCommittedHandler_build item h [] newServices w = (Inr newServices, w)"
| "ObjectCommittedHandler_build item h ((svcname, svcdesc) # rest) newServices w =
     (case build_service_item item h svcname svcdesc of
        Inl e \<Rightarrow> (Inl e, w)
      | Inr serviceItem \<Rightarrow>
          ObjectCommittedHandler_build item h rest
            (Dictionary_Set newServices (item_name item @ ''-'' @ svcname) (Some serviceItem))
            (ConfigItem_Commit serviceItem w))"

text \<open>The loop over \<open>oldServices\<close>.\<close>

fun ObjectCommittedHandler_unregister ::
  "(string \<times> config_item option) list \<Rightarrow> (string \<times> config_item option) list \<Rightarrow>
   world \<Rightarrow> world" where
  "ObjectCommittedHandler_unregister newServices [] w = w"
| "ObjectCommittedHandler_unregister newServices ((key, service) # rest) w =
     (case service of
        None \<Rightarrow> ObjectCommittedHandler_unregister newServices rest w
      | Some s \<Rightarrow>
          if \<not> Dictionary_Contains newServices (item_name s)
          then ObjectCommittedHandler_unregister newServices rest (ConfigItem_Unregister s w)
          else ObjectCommittedHandler_unregister newServices rest w)"

text \<open>\<open>host->Set("convenience_services", newServices)\<close> on the registered host object.\<close>

definition Host_SetConvenienceServices ::
  "string \<Rightarrow> (string \<times> config_item option) list \<Rightarrow> world \<Rightarrow> world" where
  "Host_SetConvenienceServices name newServices w =
     w\<lparr>hosts := map (\<lambda>(n, h). if n = name then (n, h\<lparr>convenience_services := Some newServices\<rparr>)
                               else (n, h)) (hosts w),
       registry_calls := registry_calls w @ [ConvenienceServicesSet name (map fst newServices)]\<rparr>"

definition ObjectCommittedHandler :: "config_item \<Rightarrow> world \<Rightarrow> (error + unit) \<times> world" where
  "ObjectCommittedHandler item w =
     (if item_type item \<noteq> ''Host'' then (Inr (), w)
      else if \<not> Host_Exists w (item_name item) then (Inr (), w)
      else case Host_GetByName w (item_name item) of
             Inl e \<Rightarrow> (Inl e, w)
           | Inr h \<Rightarrow>
               (let oldServices = convenience_services h
                in case (case host_services h of
                           None \<Rightarrow> (Inr [], w)
                         | Some serviceDescs \<Rightarrow>
                             ObjectCommittedHandler_build item h serviceDescs [] w) of
                     (Inl e, w1) \<Rightarrow> (Inl e, w1)
                   | (Inr newServices, w1) \<Rightarrow>
                       (let w2 = (case oldServices of
                                    None \<Rightarrow> w1
                                  | Some olds \<Rightarrow>
                                      ObjectCommittedHandler_unregister newServices olds w1)
                        in (Inr (), Host_SetConvenienceServices (item_name item) newServices w2))))"

text \<open>
  The vocabulary of the statements about the handler. A service description is well
  formed when it is a scalar, or a dictionary whose \<open>service\<close> entry converts to a
  string. \<open>inline_services\<close> are the host's inline service declarations (none when the
  attribute is not set), \<open>synthesized_names\<close> the names the handler gives the services
  it derives from them, \<open>previously_synthesized\<close> the items stored by the previous
  commit.
\<close>

definition well_formed_description :: "Value \<Rightarrow> bool" where
  "well_formed_description v =
     (case v of
        Scalar s \<Rightarrow> True
      | DictionaryObject d \<Rightarrow> (\<exists>parent. Value_to_String (Dictionary_Get d ''service'') = Inr parent)
      | Empty \<Rightarrow> False
      | OtherObject \<Rightarrow> False)"

definition synthesized_name :: "config_item \<Rightarrow> string \<Rightarrow> string" where
  "synthesized_name item svcname = item_name item @ ''-'' @ svcname"

definition inline_services :: "host \<Rightarrow> (string \<times> Value) list" where
  "inline_services h = (case host_services h of None \<Rightarrow> [] | Some descs \<Rightarrow> descs)"

definition synthesized_names :: "config_item \<Rightarrow> host \<Rightarrow> string list" where
  "synthesized_names item h = map (\<lambda>(k, v). item_name item @ ''-'' @ k) (inline_services h)"

definition previously_synthesized :: "host \<Rightarrow> config_item list" where
  "previously_synthesized h =
     (case convenience_services h of None \<Rightarrow> [] | Some olds \<Rightarrow> List.map_filter snd olds)"

text \<open>
  A change of the host's inline service declarations between two commits: the
  \<open>services\<close> attribute of the registered host object is replaced.
\<close>

definition Host_SetServices :: "string \<Rightarrow> (string \<times> Value) list \<Rightarrow> world \<Rightarrow> world" where
  "Host_SetServices name descs w =
     w\<lparr>hosts := map (\<lambda>(n, h). if n = name then (n, h\<lparr>host_services := Some descs\<rparr>) else (n, h))
                   (hosts w)\<rparr>"

abbreviation (input) commit_all :: "config_item list \<Rightarrow> world \<Rightarrow> world" where
  "commit_all items w \<equiv> foldl (\<lambda>w i. ConfigItem_Commit i w) w items"

abbreviation (input) unregister_all :: "config_item list \<Rightarrow> world \<Rightarrow> world" where
  "unregister_all items w \<equiv> foldl (\<lambda>w i. ConfigItem_Unregister i w) w items"

abbreviation (input) built :: "config_item \<Rightarrow> host \<Rightarrow> string \<times> Value \<Rightarrow> config_item" where
  "built item h \<equiv> (\<lambda>(k, v). projr (build_service_item item h k v))"

text \<open>
  \<open>Host::ValidateServiceDictionary(task, arguments)\<close>. \<open>Inr ()\<close> is the call of
  \<open>task->FinishResult(Empty)\<close> at the end. The second argument converts to
  \<open>Dictionary::Ptr\<close>; a value that is no dictionary cannot be iterated, and the model
  has the conversion throw for it.
\<close>

fun ValidateServiceDictionary_loop ::
  "string \<Rightarrow> (string \<times> Value) list \<Rightarrow> world \<Rightarrow> (error + unit) \<times> world" where
  "ValidateServiceDictionary_loop location [] w = (Inr (), w)"
| "ValidateServiceDictionary_loop location ((key, v) # rest) w =
     (case (case v of
              Scalar s \<Rightarrow> Inr (Some s)
            | DictionaryObject serviceDesc \<Rightarrow>
                (if Dictionary_Contains serviceDesc ''service''
                 then (case Value_to_String (Dictionary_Get serviceDesc ''service'') of
                         Inl e \<Rightarrow> Inl e | Inr n \<Rightarrow> Inr (Some n))
                 else Inr (Some key))
            | Empty \<Rightarrow> Inr None
            | OtherObject \<Rightarrow> Inr None) of
        Inl e \<Rightarrow> (Inl e, w)
      | Inr None \<Rightarrow> ValidateServiceDictionary_loop location rest w
      | Inr (Some name) \<Rightarrow>
          ValidateServiceDictionary_loop location rest
            (if ConfigItem_GetObject w ''Service'' name = None
             then AddError False
                    (''Validation failed for '' @ location @ '': Service '' @ [CHR 0x27] @ name @
                     [CHR 0x27] @ '' not found.'') w
             else w))"

definition ValidateServiceDictionary :: "Value list \<Rightarrow> world \<Rightarrow> (error + unit) \<times> world" where
  "ValidateServiceDictionary arguments w =
     (if length arguments < 1
      then (Inl (InvalidArgument ''Missing argument: Location must be specified.''), w)
      else if length arguments < 2
      then (Inl (InvalidArgument ''Missing argument: Attribute dictionary must be specified.''), w)
      else case Value_to_String (arguments ! 0) of
             Inl e \<Rightarrow> (Inl e, w)
           | Inr location \<Rightarrow>
               (case arguments ! 1 of
                  DictionaryObject attrs \<Rightarrow> ValidateServiceDictionary_loop location attrs w
                | Empty \<Rightarrow> (Inl BadCast, w)
                | Scalar s \<Rightarrow> (Inl BadCast, w)
                | OtherObject \<Rightarrow> (Inl BadCast, w)))"

section \<open>The service cache\<close>

definition InvalidateServicesCache :: "world \<Rightarrow> world" where
  "InvalidateServicesCache w = w\<lparr>m_ServicesCacheValid := False, m_ServicesCache := (\<lambda>n. [])\<rparr>"

text \<open>
  Modelled from the spec: \<open>Service::GetHost\<close> is not among the sources. The spec's
  rebuild "scans all live Service entities once, groups by declared host name", so
  \<open>service->GetHost()->GetName()\<close> is the host name the service declares.
\<close>

definition Service_GetHost_GetName :: "service \<Rightarrow> string" where
  "Service_GetHost_GetName s = service_host_name s"

fun ValidateServicesCache_loop ::
  "service list \<Rightarrow> (string \<Rightarrow> nat list) \<Rightarrow> (string \<Rightarrow> nat list)" where
  "ValidateServicesCache_loop [] cache = cache"
| "ValidateServicesCache_loop (s # rest) cache =
     ValidateServicesCache_loop rest
       (cache(Service_GetHost_GetName s := cache (Service_GetHost_GetName s) @ [service_addr s]))"

definition ValidateServicesCache :: "world \<Rightarrow> world" where
  "ValidateServicesCache w =
     (if m_ServicesCacheValid w then w
      else w\<lparr>m_ServicesCache := ValidateServicesCache_loop (map snd (services w)) (\<lambda>n. []),
             m_ServicesCacheValid := True\<rparr>)"

text \<open>
  \<open>weak_ptr::lock\<close>: the object at the address, if it is still alive. The registry
  holds the only lasting reference to a service object, so the live objects are the
  registered ones.
\<close>

definition lock :: "world \<Rightarrow> nat \<Rightarrow> service option" where
  "lock w a = List.find (\<lambda>s. service_addr s = a) (map snd (services w))"

fun GetServices_loop :: "world \<Rightarrow> nat list \<Rightarrow> service list \<Rightarrow> service list" where
  "GetServices_loop w [] found = found"
| "GetServices_loop w (svc # rest) found =
     (case lock w svc of
        None \<Rightarrow> GetServices_loop w rest found
      | Some s \<Rightarrow> GetServices_loop w rest (List.insert s found))"

definition GetServices :: "world \<Rightarrow> host \<Rightarrow> service list \<times> world" where
  "GetServices w h =
     (let w' = ValidateServicesCache w
      in (GetServices_loop w' (m_ServicesCache w' (host_name h)) [], w'))"

text \<open>
  What registration maintains: no two registered service objects share an address,
  and every address in use lies below the next free one.
\<close>

definition addresses_unique :: "world \<Rightarrow> bool" where
  "addresses_unique w \<longleftrightarrow>
     distinct (map service_addr (map snd (services w))) \<and>
     (\<forall>s\<in>set (map snd (services w)). service_addr s < next_addr w)"

section \<open>An example configuration\<close>

text \<open>
  Three hosts and a service, used to run the model: \<open>web\<close> depends on the host
  \<open>router\<close>, on itself and on the service \<open>ping\<close>, which resolves to \<open>web-ping\<close>; \<open>db\<close>
  depends on a host \<open>ghost\<close> and a service \<open>backup\<close> that are not registered. The
  service is critical and has a check result; its state type is the parameter.
\<close>

definition example_router :: host where
  "example_router =
     \<lparr>host_name = ''router'', host_attrs = [], host_services = None,
      convenience_services = None, hostdependencies = None, servicedependencies = None,
      hostchecks = None, acknowledgement = None, acknowledgement_expiry = None\<rparr>"

definition example_web :: host where
  "example_web =
     \<lparr>host_name = ''web'', host_attrs = [], host_services = None,
      convenience_services = None,
      hostdependencies = Some [(''router'', Empty), (''web'', Empty)],
      servicedependencies = Some [(''ping'', Empty)],
      hostchecks = None, acknowledgement = None, acknowledgement_expiry = None\<rparr>"

definition example_db :: host where
  "example_db =
     \<lparr>host_name = ''db'', host_attrs = [], host_services = None,
      convenience_services = None,
      hostdependencies = Some [(''ghost'', Empty), (''router'', Empty)],
      servicedependencies = Some [(''backup'', Empty)],
      hostchecks = None, acknowledgement = None, acknowledgement_expiry = None\<rparr>"

definition example_ping :: "ServiceStateType \<Rightarrow> service" where
  "example_ping t =
     \<lparr>service_name = ''web-ping'', service_host_name = ''web'',
      last_check_result = Some [], service_state_type = t, service_state = StateCritical,
      service_addr = 0\<rparr>"

definition example_world :: "ServiceStateType \<Rightarrow> world" where
  "example_world t =
     initial_world\<lparr>hosts := [(''db'', example_db), (''router'', example_router),
                             (''web'', example_web)],
                   services := [(''web-ping'', example_ping t)], next_addr := 1\<rparr>"

text \<open>
  Two more hosts: \<open>mail\<close> declares a service by a template name and one by an object
  that is neither a scalar nor a dictionary; \<open>shop\<close> declares two well-formed services.
\<close>

definition example_mail :: host where
  "example_mail =
     \<lparr>host_name = ''mail'', host_attrs = [],
      host_services = Some [(''imap'', Scalar ''imap-template''), (''smtp'', OtherObject)],
      convenience_services = None, hostdependencies = None, servicedependencies = None,
      hostchecks = None, acknowledgement = None, acknowledgement_expiry = None\<rparr>"

definition example_mail_item :: config_item where
  "example_mail_item =
     \<lparr>item_type = ''Host'', item_name = ''mail'', item_parents = [], item_expressions = [],
      item_debug_info = ''hosts.conf''\<rparr>"

definition example_mail_world :: world where
  "example_mail_world = initial_world\<lparr>hosts := [(''mail'', example_mail)]\<rparr>"

definition example_shop :: host where
  "example_shop =
     \<lparr>host_name = ''shop'', host_attrs = [(''check_interval'', Scalar ''60'')],
      host_services = Some [(''http'', Scalar ''http-template''),
                            (''ssh'', DictionaryObject [(''service'', Scalar ''ssh-template'')])],
      convenience_services = None, hostdependencies = None, servicedependencies = None,
      hostchecks = None, acknowledgement = None, acknowledgement_expiry = None\<rparr>"

definition example_shop_item :: config_item where
  "example_shop_item =
     \<lparr>item_type = ''Host'', item_name = ''shop'', item_parents = [], item_expressions = [],
      item_debug_info = ''hosts.conf''\<rparr>"

definition example_shop_world :: world where
  "example_shop_world = initial_world\<lparr>hosts := [(''shop'', example_shop)]\<rparr>"






text \<open>
  The host \<open>proxy\<close> has been committed before: its stored set holds the synthesized
  service \<open>proxy-old\<close>, which is registered. It now declares \<open>dns\<close> by a template name,
  \<open>ftp\<close> by an object that is neither a scalar nor a dictionary, and \<open>http\<close> by a
  template name.
\<close>

definition example_proxy_old :: config_item where
  "example_proxy_old =
     \<lparr>item_type = ''Service'', item_name = ''proxy-old'', item_parents = [''old-template''],
      item_expressions = [], item_debug_info = ''hosts.conf''\<rparr>"

definition example_proxy :: host where
  "example_proxy =
     \<lparr>host_name = ''proxy'', host_attrs = [],
      host_services = Some [(''dns'', Scalar ''dns-template''), (''ftp'', OtherObject),
                            (''http'', Scalar ''http-template'')],
      convenience_services = Some [(''proxy-old'', Some example_proxy_old)],
      hostdependencies = None, servicedependencies = None,
      hostchecks = None, acknowledgement = None, acknowledgement_expiry = None\<rparr>"

definition example_proxy_item :: config_item where
  "example_proxy_item =
     \<lparr>item_type = ''Host'', item_name = ''proxy'', item_parents = [], item_expressions = [],
      item_debug_info = ''hosts.conf''\<rparr>"

definition example_proxy_world :: world where
  "example_proxy_world =
     initial_world\<lparr>hosts := [(''proxy'', example_proxy)],
                   config_items := [((''Service'', ''proxy-old''), example_proxy_old)]\<rparr>"

text \<open>
  Two more services, and a sequence of registry operations: three registrations and
  the unregistration of \<open>web-ping\<close>.
\<close>

definition example_http :: service where
  "example_http =
     \<lparr>service_name = ''web-http'', service_host_name = ''web'',
      last_check_result = None, service_state_type = StateTypeSoft, service_state = StateOK,
      service_addr = 0\<rparr>"

definition example_dns :: service where
  "example_dns =
     \<lparr>service_name = ''dns'', service_host_name = ''router'',
      last_check_result = None, service_state_type = StateTypeSoft, service_state = StateOK,
      service_addr = 0\<rparr>"

definition example_ops :: "registry_op list" where
  "example_ops =
     [Register (example_ping StateTypeHard), Register example_http, Register example_dns,
      Unregister ''web-ping'']"

section \<open>Properties of the double-precision arithmetic\<close>

text \<open>\<open>pow2\<close> is the power of two, also for a negative exponent.\<close>

lemma pow2_powr: "pow2 e = 2 powr (real_of_int e)"
proof (cases "0 \<le> e")
  case True
  then have "real_of_int e = real (nat e)" by simp
  then show ?thesis
    using True by (simp only: pow2_def if_True powr_realpow zero_less_numeral)
next
  case False
  then have "real_of_int e = - real (nat (- e))" by simp
  then show ?thesis
    using False by (simp only: pow2_def if_False powr_minus powr_realpow zero_less_numeral
        inverse_eq_divide)
qed

lemma pow2_pos: "0 < pow2 e"
  by (simp add: pow2_def)

lemma pow2_mono: "a \<le> b \<Longrightarrow> pow2 a \<le> pow2 b"
  by (simp add: pow2_powr)

lemma pow2_nat: "0 \<le> k \<Longrightarrow> pow2 k = 2 ^ nat k"
  by (simp add: pow2_def)

lemma pow2_neg: "0 \<le> k \<Longrightarrow> pow2 (- k) = 1 / 2 ^ nat k"
  by (cases "k = 0") (simp_all add: pow2_def)

lemma pow2_Suc: "pow2 (e + 1) = 2 * pow2 e"
  by (simp add: pow2_powr powr_add)

text \<open>The exponent brackets its argument between two powers of two.\<close>

lemma floor_bitlen:
  assumes "1 \<le> (y::real)"
  defines "k \<equiv> bitlen \<lfloor>y\<rfloor> - 1"
  shows "0 \<le> k" and "2 ^ nat k \<le> y" and "y < 2 ^ nat (k + 1)"
proof -
  have n: "0 < \<lfloor>y\<rfloor>" using assms(1) by simp
  note b = bitlen_bounds[OF n]
  have pos: "1 \<le> bitlen \<lfloor>y\<rfloor>" using n by (auto simp: bitlen_alt_def)
  then show "0 \<le> k" by (simp add: k_def)
  have "(2::int) ^ nat k \<le> \<lfloor>y\<rfloor>"
    using b unfolding k_def by simp
  then have "of_int ((2::int) ^ nat k) \<le> (of_int \<lfloor>y\<rfloor> :: real)"
    by (simp only: of_int_le_iff)
  then have "2 ^ nat k \<le> real_of_int \<lfloor>y\<rfloor>" by simp
  also have "\<dots> \<le> y" by (rule of_int_floor_le)
  finally show "2 ^ nat k \<le> y" .
  have "\<lfloor>y\<rfloor> + 1 \<le> 2 ^ nat (k + 1)"
    using b by (simp add: k_def)
  then have "(of_int (\<lfloor>y\<rfloor> + 1) :: real) \<le> of_int ((2::int) ^ nat (k + 1))"
    by (simp only: of_int_le_iff)
  then have "real_of_int \<lfloor>y\<rfloor> + 1 \<le> 2 ^ nat (k + 1)" by simp
  moreover have "y < real_of_int \<lfloor>y\<rfloor> + 1" by (rule real_of_int_floor_add_one_gt)
  ultimately show "y < 2 ^ nat (k + 1)" by (rule less_le_trans[rotated])
qed

text \<open>
  Rounding yields a multiple of the spacing of the doubles around its argument, at a
  distance of at most half that spacing.
\<close>

lemma round_half_even_error: "\<bar>of_int (round_half_even q) - q\<bar> \<le> 1 / 2"
  unfolding round_half_even_def Let_def by (auto; linarith)

lemma double_exponent_bounds:
  assumes "0 < x"
  shows "pow2 (- 1022) \<le> x \<longrightarrow> pow2 (double_exponent x) \<le> x"
    and "x < pow2 (double_exponent x + 1)"
proof -
  define e where "e = (if 1 \<le> x then bitlen \<lfloor>x\<rfloor> - 1
        else (let k = bitlen \<lfloor>1 / x\<rfloor> - 1 in if 1 / x = 2 ^ nat k then - k else - k - 1))"
  have de: "double_exponent x = max (- 1022) e"
    by (simp add: double_exponent_def e_def)
  have b: "pow2 e \<le> x \<and> x < pow2 (e + 1)"
  proof (cases "1 \<le> x")
    case True
    note f = floor_bitlen[OF True]
    have e: "e = bitlen \<lfloor>x\<rfloor> - 1" using True by (simp add: e_def)
    from f show ?thesis
      unfolding e by (simp add: pow2_nat)
  next
    case False
    define y where "y = 1 / x"
    define k where "k = bitlen \<lfloor>y\<rfloor> - 1"
    have y: "1 \<le> y" "0 < y" "x = 1 / y" using False assms by (simp_all add: y_def)
    note f = floor_bitlen[OF y(1), folded k_def]
    have e: "e = (if y = 2 ^ nat k then - k else - k - 1)"
      using False by (simp add: e_def y_def k_def Let_def)
    show ?thesis
    proof (cases "y = 2 ^ nat k")
      case True
      then have "e = - k" by (simp add: e)
      moreover have "pow2 (- k) = x" using f(1) True y by (simp add: pow2_neg)
      moreover have "pow2 (- k + 1) = 2 * pow2 (- k)" by (rule pow2_Suc)
      ultimately show ?thesis using assms by simp
    next
      case False
      then have ek: "e = - (k + 1)" by (simp add: e)
      have lt: "2 ^ nat k < y" using f(2) False by simp
      have "pow2 (- (k + 1)) = 1 / 2 ^ nat (k + 1)" using f(1) by (intro pow2_neg) simp
      also have "\<dots> \<le> 1 / y" using f(3) y(2) by (simp add: frac_le)
      finally have lo: "pow2 e \<le> x" unfolding ek y(3) .
      have "x < 1 / 2 ^ nat k" unfolding y(3) using lt by (simp add: frac_less2)
      also have "\<dots> = pow2 (- k)" using f(1) by (simp add: pow2_neg)
      finally have "x < pow2 (e + 1)" unfolding ek by simp
      with lo show ?thesis by simp
    qed
  qed
  show "pow2 (- 1022) \<le> x \<longrightarrow> pow2 (double_exponent x) \<le> x"
    using b unfolding de by (simp add: max_def)
  have "pow2 (e + 1) \<le> pow2 (double_exponent x + 1)"
    unfolding de by (rule pow2_mono) simp
  with b show "x < pow2 (double_exponent x + 1)" by simp
qed

lemma double_round_nearest:
  assumes "x \<noteq> 0"
  shows "\<exists>m. double_round x = of_int m * pow2 (double_exponent \<bar>x\<bar> - 52)"
    and "\<bar>double_round x - x\<bar> \<le> pow2 (double_exponent \<bar>x\<bar> - 52) / 2"
proof -
  define ulp where "ulp = pow2 (double_exponent \<bar>x\<bar> - 52)"
  have pos: "0 < ulp" unfolding ulp_def by (rule pow2_pos)
  have r: "double_round x = of_int (round_half_even (x / ulp)) * ulp"
    using assms by (simp add: double_round_def Let_def ulp_def)
  then show "\<exists>m. double_round x = of_int m * pow2 (double_exponent \<bar>x\<bar> - 52)"
    unfolding ulp_def by (rule exI)
  have "\<bar>of_int (round_half_even (x / ulp)) - x / ulp\<bar> \<le> 1 / 2"
    by (rule round_half_even_error)
  then have "\<bar>of_int (round_half_even (x / ulp)) - x / ulp\<bar> * ulp \<le> 1 / 2 * ulp"
    using pos by (intro mult_right_mono) simp_all
  moreover have "\<bar>of_int (round_half_even (x / ulp)) - x / ulp\<bar> * ulp =
      \<bar>of_int (round_half_even (x / ulp)) * ulp - x\<bar>"
    using pos by (simp add: add_divide_eq_if_simps(4))
  ultimately show "\<bar>double_round x - x\<bar> \<le> pow2 (double_exponent \<bar>x\<bar> - 52) / 2"
    unfolding r ulp_def by simp
qed

text \<open>
  For a result in the normal range the error of a rounding is at most the result times
  \<open>unit_roundoff\<close>; the results met below are zero or at least \<open>1 / 100\<close>.
\<close>

lemma pow2_half_ulp: "pow2 (e - 52) / 2 = pow2 e * unit_roundoff"
proof -
  have "pow2 (e - 52) = pow2 e / 2 ^ 52"
    by (simp add: pow2_powr powr_diff)
  then show ?thesis by (simp add: unit_roundoff_def)
qed

lemma pow2_tiny: "pow2 (- 1022) \<le> 1 / 100"
  by (simp add: pow2_def)

lemma unit_roundoff_pos: "0 < unit_roundoff" "unit_roundoff < 1"
  by (simp_all add: unit_roundoff_def)

lemma double_round_rel:
  assumes "pow2 (- 1022) \<le> x"
  shows "\<bar>double_round x - x\<bar> \<le> x * unit_roundoff"
proof -
  have pos: "0 < x" using assms pow2_pos[of "- 1022"] by linarith
  then have "\<bar>double_round x - x\<bar> \<le> pow2 (double_exponent \<bar>x\<bar> - 52) / 2"
    by (intro double_round_nearest) simp
  also have "\<dots> = pow2 (double_exponent x) * unit_roundoff"
    using pos by (simp add: pow2_half_ulp)
  also have "\<dots> \<le> x * unit_roundoff"
    using double_exponent_bounds(1)[OF pos] assms unit_roundoff_pos
    by (intro mult_right_mono) simp_all
  finally show ?thesis .
qed

lemma double_round_bounds:
  assumes "x = 0 \<or> 1 / 100 \<le> x"
  shows "x * (1 - unit_roundoff) \<le> double_round x \<and> double_round x \<le> x * (1 + unit_roundoff)"
proof (cases "x = 0")
  case True
  then show ?thesis by (simp add: double_round_def)
next
  case False
  with assms have "pow2 (- 1022) \<le> x" using pow2_tiny by linarith
  from double_round_rel[OF this] show ?thesis
    by (simp add: algebra_simps abs_le_iff)
qed

text \<open>Powers of the two error factors.\<close>

lemma one_minus_u_pow: "n \<le> 30 \<Longrightarrow> 1 / 2 \<le> (1 - unit_roundoff) ^ n"
proof -
  assume n: "n \<le> 30"
  have "1 + real n * (- unit_roundoff) \<le> (1 + (- unit_roundoff)) ^ n"
    by (rule Bernoulli_inequality) (simp add: unit_roundoff_def)
  moreover have "real n * unit_roundoff \<le> 30 * unit_roundoff"
    using n unit_roundoff_pos by (intro mult_right_mono) simp_all
  moreover have "30 * unit_roundoff \<le> 1 / 2"
    by (simp add: unit_roundoff_def)
  ultimately show ?thesis by simp
qed

lemma one_plus_u_pow:
  assumes "0 \<le> (u::real)" and "2 * real n * u \<le> 1"
  shows "(1 + u) ^ n \<le> 1 + 2 * real n * u"
  using assms(2)
proof (induction n)
  case 0
  then show ?case by simp
next
  case (Suc n)
  have nu: "2 * real n * u \<le> 1"
    using Suc.prems assms(1) by (simp add: algebra_simps)
  then have ih: "(1 + u) ^ n \<le> 1 + 2 * real n * u"
    by (rule Suc.IH)
  have "(1 + u) ^ Suc n = (1 + u) ^ n * (1 + u)" by simp
  also have "\<dots> \<le> (1 + 2 * real n * u) * (1 + u)"
    using ih assms(1) by (intro mult_right_mono) simp_all
  also have "\<dots> = 1 + 2 * real n * u + u + (2 * real n * u) * u"
    by (simp add: algebra_simps)
  also have "\<dots> \<le> 1 + 2 * real n * u + u + 1 * u"
    using nu assms(1) by (intro add_left_mono mult_right_mono) simp_all
  also have "\<dots> = 1 + 2 * real (Suc n) * u"
    by (simp add: algebra_simps)
  finally show ?case .
qed


lemma one_minus_u_ge: "1 - real n * unit_roundoff \<le> (1 - unit_roundoff) ^ n"
  using Bernoulli_inequality[of "- unit_roundoff" n] unit_roundoff_pos by simp

text \<open>How the accumulated error passes through the operations.\<close>

lemma within_roundings_exact: "within_roundings 0 X X"
  by (simp add: within_roundings_def)

lemma within_roundings_mono:
  assumes "0 \<le> X" and "n \<le> m" and "within_roundings n x X"
  shows "within_roundings m x X"
proof -
  have "(1 - unit_roundoff) ^ m \<le> (1 - unit_roundoff) ^ n"
    using assms(2) unit_roundoff_pos by (intro power_decreasing) simp_all
  then have lo: "X * (1 - unit_roundoff) ^ m \<le> X * (1 - unit_roundoff) ^ n"
    using assms(1) by (rule mult_left_mono)
  have "(1 + unit_roundoff) ^ n \<le> (1 + unit_roundoff) ^ m"
    using assms(2) unit_roundoff_pos by (intro power_increasing) simp_all
  then have hi: "X * (1 + unit_roundoff) ^ n \<le> X * (1 + unit_roundoff) ^ m"
    using assms(1) by (rule mult_left_mono)
  from lo hi assms(3) show ?thesis
    unfolding within_roundings_def by linarith
qed

lemma within_roundings_add:
  "within_roundings n x X \<Longrightarrow> within_roundings n y Y \<Longrightarrow> within_roundings n (x + y) (X + Y)"
  by (simp add: within_roundings_def distrib_right)

lemma within_roundings_scale:
  "0 \<le> c \<Longrightarrow> within_roundings n x X \<Longrightarrow> within_roundings n (c * x) (c * X)"
  by (simp add: within_roundings_def mult_left_mono mult.assoc)

lemma within_roundings_mul:
  assumes "0 \<le> X" and "0 \<le> Y" and "within_roundings n x X" and "within_roundings m y Y"
  shows "within_roundings (n + m) (x * y) (X * Y)"
proof -
  have p: "0 \<le> (1 - unit_roundoff) ^ n" "0 \<le> (1 - unit_roundoff) ^ m"
    using unit_roundoff_pos by simp_all
  have lx: "0 \<le> X * (1 - unit_roundoff) ^ n" and ly: "0 \<le> Y * (1 - unit_roundoff) ^ m"
    using assms(1,2) p by simp_all
  from assms(3,4) have b: "X * (1 - unit_roundoff) ^ n \<le> x" "x \<le> X * (1 + unit_roundoff) ^ n"
    "Y * (1 - unit_roundoff) ^ m \<le> y" "y \<le> Y * (1 + unit_roundoff) ^ m"
    by (simp_all add: within_roundings_def)
  have x: "0 \<le> x" and y: "0 \<le> y" using lx ly b by linarith+
  have "(X * (1 - unit_roundoff) ^ n) * (Y * (1 - unit_roundoff) ^ m) \<le> x * y"
    using b lx ly x by (intro mult_mono) simp_all
  moreover have "x * y \<le> (X * (1 + unit_roundoff) ^ n) * (Y * (1 + unit_roundoff) ^ m)"
    using b x y by (intro mult_mono) (auto intro: order_trans)
  ultimately show ?thesis
    by (simp add: within_roundings_def power_add mult_ac)
qed

lemma within_roundings_round:
  assumes "within_roundings n x X" and "X = 0 \<or> 1 / 50 \<le> X" and "n \<le> 30"
  shows "within_roundings (Suc n) (double_round x) X"
proof (cases "X = 0")
  case True
  with assms(1) have "x = 0" by (simp add: within_roundings_def)
  with True show ?thesis by (simp add: within_roundings_def double_round_def)
next
  case False
  with assms(2) have X: "1 / 50 \<le> X" by simp
  from assms(1) have b: "X * (1 - unit_roundoff) ^ n \<le> x" "x \<le> X * (1 + unit_roundoff) ^ n"
    by (simp_all add: within_roundings_def)
  have "1 / 50 * (1 / 2) \<le> X * (1 - unit_roundoff) ^ n"
    using X one_minus_u_pow[OF assms(3)] by (intro mult_mono) simp_all
  with b have "1 / 100 \<le> x" by simp
  then have r: "x * (1 - unit_roundoff) \<le> double_round x"
      "double_round x \<le> x * (1 + unit_roundoff)"
    using double_round_bounds[of x] by simp_all
  have "X * (1 - unit_roundoff) ^ n * (1 - unit_roundoff) \<le> x * (1 - unit_roundoff)"
    using b(1) unit_roundoff_pos by (intro mult_right_mono) simp_all
  then have lo: "X * (1 - unit_roundoff) ^ Suc n \<le> x * (1 - unit_roundoff)"
    by (simp add: mult_ac)
  have "x * (1 + unit_roundoff) \<le> X * (1 + unit_roundoff) ^ n * (1 + unit_roundoff)"
    using b(2) unit_roundoff_pos by (intro mult_right_mono) simp_all
  then have hi: "x * (1 + unit_roundoff) \<le> X * (1 + unit_roundoff) ^ Suc n"
    by (simp add: mult_ac)
  from lo hi r show ?thesis
    unfolding within_roundings_def by linarith
qed

section \<open>Properties of the flapping detector\<close>

declare UpdateFlappingStatus_loop.simps [simp del]

lemmas flapping_setters = SetFlappingBuffer_def SetFlappingIndex_def SetFlappingCurrent_def
  SetFlapping_def SetFlappingLastChange_def

text \<open>The doubles of the two literals \<open>0.8\<close> and \<open>0.02\<close>; 0, 20 and 100 are doubles.\<close>

lemma double_literal_0_8: "double_literal 0.8 = 3602879701896397 / 2 ^ 52"
  by code_simp

lemma double_literal_0_02: "double_literal 0.02 = 5764607523034235 / 2 ^ 58"
  by code_simp

lemma double_round_0: "double_round 0 = 0"
  by (simp add: double_round_def)

lemma double_literal_100: "double_literal 100 = 100"
  by code_simp

lemma double_literal_20: "double_literal 20 = 20"
  by code_simp

text \<open>The loop never throws for an index in range, and adds up the weights in order.\<close>

lemma UpdateFlappingStatus_loop_foldl:
  "0 \<le> oldest \<Longrightarrow> oldest < 20 \<Longrightarrow> 0 \<le> i \<Longrightarrow> i \<le> 20 \<Longrightarrow>
    UpdateFlappingStatus_loop buf oldest i acc =
      Inr (foldl (\<lambda>W k. if bit buf (nat ((oldest + int k) mod 20))
                         then double_add W (slot_weight k) else W) acc [nat i..<20])"
proof (induction buf oldest i acc rule: UpdateFlappingStatus_loop.induct)
  case (1 buf oldestIndex i stateChanges)
  show ?case
  proof (cases "i < 20")
    case False
    with 1 have "i = 20" by simp
    then show ?thesis by (subst UpdateFlappingStatus_loop.simps) simp
  next
    case True
    let ?t = "bit buf (nat ((oldestIndex + i) mod 20))"
    let ?acc = "if ?t then double_add stateChanges (slot_weight (nat i)) else stateChanges"
    have ni: "nat (i + 1) = Suc (nat i)" "int (nat i) = i" "nat i < 20"
      using 1 True by auto
    have inr: "bitset_test buf ((oldestIndex + i) mod 20) = Inr ?t"
      by (simp add: bitset_test_def not_less not_le)
    have step: "UpdateFlappingStatus_loop buf oldestIndex i stateChanges =
        UpdateFlappingStatus_loop buf oldestIndex (i + 1) ?acc"
      using ni by (subst UpdateFlappingStatus_loop.simps) (simp add: True inr slot_weight_def)
    have ih: "UpdateFlappingStatus_loop buf oldestIndex (i + 1) ?acc =
      Inr (foldl (\<lambda>W k. if bit buf (nat ((oldestIndex + int k) mod 20))
                         then double_add W (slot_weight k) else W) ?acc [nat (i + 1)..<20])"
      using 1 True inr ni by (auto simp add: slot_weight_def split: if_splits)
    have upt: "[nat i..<20] = nat i # [Suc (nat i)..<20]"
      using ni by (simp add: upt_conv_Cons)
    show ?thesis
      unfolding step ih upt using ni by simp
  qed
qed

lemma bit_uint_word20: "bit (w :: 20 word) (nat m) = bit (uint w) (nat m)"
  by (auto simp add: bit_uint_iff dest: bit_imp_le_length)

text \<open>
  What one call does for a write index in range, in closed form: the new buffer is the
  old one (cut to 20 bits) with the bit at the write index replaced, and nothing but
  the four fields is written.
\<close>

lemma UpdateFlappingStatus_in_range:
  fixes c :: checkable and stateChange :: bool
  assumes "0 \<le> flapping_index c" "flapping_index c < 20"
  defines "w \<equiv> (if stateChange
                 then set_bit (nat (flapping_index c)) (word_of_int (flapping_buffer c) :: 20 word)
                 else unset_bit (nat (flapping_index c)) (word_of_int (flapping_buffer c)))"
  defines "idx \<equiv> (flapping_index c + 1) mod 20"
  defines "fv \<equiv> double_div (double_mul 100 (weighted_sum (uint w) idx)) 20"
  shows "UpdateFlappingStatus now stateChange c =
     Inr (c\<lparr>flapping_buffer := uint w, flapping_index := idx, flapping_current := fv,
            flapping := (if flapping c then fv > flapping_threshold_low c
                         else fv > flapping_threshold_high c)\<rparr>)"
proof -
  have idx: "0 \<le> idx" "idx < 20" by (simp_all add: idx_def)
  have set: "bitset_set (word_of_int (flapping_buffer c)) (flapping_index c) stateChange = Inr w"
    using assms(1,2) by (simp add: bitset_set_def w_def)
  have loop: "UpdateFlappingStatus_loop w idx 0 (double_of_int 0) = Inr (weighted_sum (uint w) idx)"
    using UpdateFlappingStatus_loop_foldl[OF idx, of 0 w 0]
    by (simp add: weighted_sum_def bit_uint_word20 double_of_int_def double_round_0)
  show ?thesis
    unfolding UpdateFlappingStatus_def Let_def set idx_def[symmetric]
    by (simp add: loop flapping_setters fv_def double_literal_100 double_literal_20)
qed

text \<open>
  The computed percentage against the exact one: a weight takes four roundings, the
  total one more for every slot, the percentage two more.
\<close>

lemma slot_weight_within:
  "within_roundings 4 (slot_weight i) (0.8 + 0.02 * real i)"
proof -
  have l08: "within_roundings (Suc 0) (double_literal 0.8) 0.8"
    unfolding double_literal_def
    by (rule within_roundings_round[OF within_roundings_exact]) simp_all
  have l002: "within_roundings (Suc 0) (double_literal 0.02) 0.02"
    unfolding double_literal_def
    by (rule within_roundings_round[OF within_roundings_exact]) simp_all
  have "real i = 0 \<or> 1 / 50 \<le> real i"
    by (cases i) simp_all
  then have di: "within_roundings (Suc 0) (double_of_int (int i)) (real i)"
    unfolding double_of_int_def of_int_of_nat_eq
    by (intro within_roundings_round[OF within_roundings_exact]) simp_all
  have m: "within_roundings (Suc 0 + Suc 0)
      (double_literal 0.02 * double_of_int (int i)) (0.02 * real i)"
    using l002 di by (intro within_roundings_mul) simp_all
  have "0.02 * real i = 0 \<or> 1 / 50 \<le> 0.02 * real i"
    by (cases i) simp_all
  then have "within_roundings (Suc (Suc 0 + Suc 0))
      (double_mul (double_literal 0.02) (double_of_int (int i))) (0.02 * real i)"
    unfolding double_mul_def
    by (intro within_roundings_round[OF m]) simp_all
  moreover have "Suc (Suc 0 + Suc 0) = 3"
    by simp
  ultimately have p: "within_roundings 3
      (double_mul (double_literal 0.02) (double_of_int (int i))) (0.02 * real i)"
    by (simp only:)
  have "within_roundings 3 (double_literal 0.8) 0.8"
    by (rule within_roundings_mono[OF _ _ l08]) simp_all
  then have a: "within_roundings 3
      (double_literal 0.8 + double_mul (double_literal 0.02) (double_of_int (int i)))
      (0.8 + 0.02 * real i)"
    using p by (rule within_roundings_add)
  have "within_roundings (Suc 3) (slot_weight i) (0.8 + 0.02 * real i)"
    unfolding slot_weight_def double_add_def
    by (intro within_roundings_round[OF a]) simp_all
  moreover have "Suc 3 = 4"
    by simp
  ultimately show ?thesis
    by (simp only:)
qed

lemma weighted_fold_within:
  fixes b :: "nat \<Rightarrow> bool"
  defines "S \<equiv> (\<lambda>k. \<Sum>i<k. if b i then 0.8 + 0.02 * real i else 0)"
  assumes "k \<le> 20"
  shows "within_roundings (4 + k)
           (foldl (\<lambda>W i. if b i then double_add W (slot_weight i) else W) 0 [0..<k]) (S k) \<and>
         (S k = 0 \<or> 4 / 5 \<le> S k)"
  using assms(2)
proof (induction k)
  case 0
  then show ?case by (simp add: S_def within_roundings_def)
next
  case (Suc k)
  let ?f = "\<lambda>W i. if b i then double_add W (slot_weight i) else W"
  let ?W = "foldl ?f 0 [0..<k]"
  from Suc have ih: "within_roundings (4 + k) ?W (S k)" and z: "S k = 0 \<or> 4 / 5 \<le> S k"
    by simp_all
  from z have nn: "0 \<le> S k" by auto
  show ?case
  proof (cases "b k")
    case True
    let ?s = "0.8 + 0.02 * real k"
    have Sk: "S (Suc k) = S k + ?s" using True by (simp add: S_def)
    have "within_roundings (4 + k) (slot_weight k) ?s"
      by (rule within_roundings_mono[OF _ _ slot_weight_within]) simp_all
    with ih have "within_roundings (4 + k) (?W + slot_weight k) (S k + ?s)"
      by (rule within_roundings_add)
    moreover have big: "4 / 5 \<le> S k + ?s" using nn by simp
    ultimately have "within_roundings (Suc (4 + k)) (double_round (?W + slot_weight k)) (S k + ?s)"
      using Suc.prems by (intro within_roundings_round) simp_all
    then show ?thesis
      using True big by (simp add: Sk double_add_def)
  next
    case False
    have Sk: "S (Suc k) = S k" using False by (simp add: S_def)
    have "within_roundings (Suc (4 + k)) ?W (S k)"
      by (rule within_roundings_mono[OF nn _ ih]) simp
    then show ?thesis
      using False z by (simp add: Sk)
  qed
qed

lemma exact_weighted_sum_bounds:
  "0 \<le> exact_weighted_sum buffer index" "exact_weighted_sum buffer index \<le> 99 / 5"
proof -
  show "0 \<le> exact_weighted_sum buffer index"
    unfolding exact_weighted_sum_def by (intro sum_nonneg) simp
  have "exact_weighted_sum buffer index \<le> (\<Sum>i<20. 0.8 + 0.02 * real i)"
    unfolding exact_weighted_sum_def by (intro sum_mono) simp
  also have "\<dots> = 99 / 5"
    by (simp add: lessThan_nat_numeral lessThan_Suc)
  finally show "exact_weighted_sum buffer index \<le> 99 / 5" .
qed

lemma flapping_value_error:
  "\<bar>double_div (double_mul 100 (weighted_sum buffer index)) 20 -
    100 * exact_weighted_sum buffer index / 20\<bar> \<le> 1 / 10 ^ 12"
proof -
  define S where "S = exact_weighted_sum buffer index"
  define W where "W = weighted_sum buffer index"
  define E where "E = 1 / 20 * (100 * S)"
  have k: "(20::nat) \<le> 20" by simp
  note f = weighted_fold_within[OF k, of "\<lambda>i. bit buffer (nat ((index + int i) mod 20))",
      folded weighted_sum_def exact_weighted_sum_def, folded S_def W_def]
  have w: "within_roundings (4 + 20) W S" and z: "S = 0 \<or> 4 / 5 \<le> S"
    using f by (rule conjunct1, rule conjunct2)
  have "within_roundings (4 + 20) (100 * W) (100 * S)"
    using w by (intro within_roundings_scale) simp_all
  moreover have "100 * S = 0 \<or> 1 / 50 \<le> 100 * S"
    using z by auto
  ultimately have t: "within_roundings (Suc (4 + 20)) (double_round (100 * W)) (100 * S)"
    by (intro within_roundings_round) simp_all
  have "within_roundings (Suc (4 + 20)) (1 / 20 * double_round (100 * W)) E"
    unfolding E_def using t by (intro within_roundings_scale) simp_all
  moreover have "E = 0 \<or> 1 / 50 \<le> E"
    using z by (auto simp add: E_def)
  ultimately have "within_roundings (Suc (Suc (4 + 20))) (double_round (1 / 20 * double_round (100 * W))) E"
    by (intro within_roundings_round) simp_all
  moreover have "Suc (Suc (4 + 20)) = 26"
    by simp
  moreover define V where "V = double_round (1 / 20 * double_round (100 * W))"
  ultimately have v: "within_roundings 26 V E"
    by (simp only:)
  have E: "0 \<le> E" "E \<le> 99"
    using exact_weighted_sum_bounds[of buffer index] by (simp_all add: E_def S_def)
  have lo: "1 - 26 * unit_roundoff \<le> (1 - unit_roundoff) ^ 26"
    using one_minus_u_ge[of 26] by simp
  have "2 * real 26 * unit_roundoff \<le> 1"
    by (simp add: unit_roundoff_def)
  then have "(1 + unit_roundoff) ^ 26 \<le> 1 + 2 * real 26 * unit_roundoff"
    using unit_roundoff_pos by (intro one_plus_u_pow) simp_all
  then have hi: "(1 + unit_roundoff) ^ 26 \<le> 1 + 52 * unit_roundoff"
    by simp
  from v have b: "E * (1 - unit_roundoff) ^ 26 \<le> V" "V \<le> E * (1 + unit_roundoff) ^ 26"
    by (simp_all only: within_roundings_def)
  have "E * (1 - 26 * unit_roundoff) \<le> E * (1 - unit_roundoff) ^ 26"
    using lo E(1) by (rule mult_left_mono)
  moreover have "E * (1 - 26 * unit_roundoff) = E - E * (26 * unit_roundoff)"
    by (simp add: algebra_simps)
  ultimately have l: "E - V \<le> E * (26 * unit_roundoff)"
    using b(1) by linarith
  have "E * (1 + unit_roundoff) ^ 26 \<le> E * (1 + 52 * unit_roundoff)"
    using hi E(1) by (rule mult_left_mono)
  moreover have "E * (1 + 52 * unit_roundoff) = E + E * (52 * unit_roundoff)"
    by (simp add: algebra_simps)
  ultimately have h: "V - E \<le> E * (52 * unit_roundoff)"
    using b(2) by linarith
  have "E * (52 * unit_roundoff) \<le> 99 * (52 * unit_roundoff)"
    using E(2) unit_roundoff_pos by (intro mult_right_mono) simp_all
  moreover have "E * (26 * unit_roundoff) \<le> E * (52 * unit_roundoff)"
    using E(1) unit_roundoff_pos by (intro mult_left_mono) simp_all
  moreover have "99 * (52 * unit_roundoff) \<le> 1 / 10 ^ 12"
    by (simp add: unit_roundoff_def)
  ultimately have "\<bar>V - E\<bar> \<le> 1 / 10 ^ 12"
    using l h by linarith
  moreover have "V = double_div (double_mul 100 (weighted_sum buffer index)) 20"
    by (simp add: V_def W_def double_div_def double_mul_def)
  moreover have "E = 100 * exact_weighted_sum buffer index / 20"
    by (simp add: E_def S_def)
  ultimately show ?thesis
    by (simp only:)
qed

lemma bit_20bit_int:
  assumes "0 \<le> (k::int)" "k < 2 ^ 20"
  shows "bit k j \<longleftrightarrow> j < 20 \<and> bit k j"
proof -
  have "take_bit 20 k = k" using assms by (simp add: take_bit_int_eq_self)
  then have "bit k j = bit (take_bit 20 k) j" by simp
  then show ?thesis by (simp add: bit_take_bit_iff)
qed

text \<open>
  C1, as claimed, fails where the arithmetic of the source rounds. With an empty buffer,
  the write index 19 and a state change, the only set slot of the new buffer is the
  newest one (\<open>i = 19\<close>): \<open>W\<close> is \<open>0.8 + 0.02 * 19 = 1.18\<close> and \<open>100 * W / 20\<close> is 5.9, which no
  double equals. The stored value is \<open>3321404725185741 / 2 ^ 49\<close>, the double nearest to
  5.9.
\<close>

theorem C1_rounded_value_counterexample:
  "\<exists>c'. UpdateFlappingStatus 1000 True
       \<lparr>flapping_buffer = 0, flapping_index = 19, flapping_current = 0, flapping = False,
        flapping_last_change = 0, flapping_threshold_low = 25, flapping_threshold_high = 30,
        enable_flapping = True\<rparr> = Inr c' \<and>
     flapping_buffer c' = 2 ^ 19 \<and> flapping_index c' = 0 \<and>
     100 * exact_weighted_sum (flapping_buffer c') (flapping_index c') / 20 = 59 / 10 \<and>
     flapping_current c' = 3321404725185741 / 2 ^ 49 \<and>
     flapping_current c' \<noteq> 100 * exact_weighted_sum (flapping_buffer c') (flapping_index c') / 20"
proof -
  have w: "uint (set_bit 19 (word_of_int 0 :: 20 word)) = 524288"
    by code_simp
  have s: "double_div (double_mul 100 (weighted_sum 524288 0)) 20 = 3321404725185741 / 562949953421312"
    by code_simp
  have e: "exact_weighted_sum 524288 0 = 59 / 50"
    by code_simp
  show ?thesis
    by (subst UpdateFlappingStatus_in_range) (simp_all add: w s e)
qed

text \<open>
  C1, amended. For every 20-bit buffer, every write index in 0..19 and every
  \<open>stateChange\<close>, \<open>UpdateFlappingStatus\<close> returns, the stored buffer is the old one with the
  bit at the write index replaced by \<open>stateChange\<close> (every other bit unchanged), the
  stored index is the old one plus one modulo 20, and the stored current value is
  \<open>100 * W / 20\<close> computed in double-precision arithmetic, where \<open>W\<close> adds up, from the new
  write index (the oldest slot, \<open>i = 0\<close>) onwards, the double \<open>0.8 + 0.02 * i\<close> for every
  set bit of the new buffer: every multiplication, addition and division is rounded to
  the nearest double. The stored value differs from \<open>100 * W / 20\<close> in exact arithmetic
  by at most \<open>1 / 10 ^ 12\<close>.
\<close>

theorem C1_UpdateFlappingStatus_buffer_index_value:
  assumes "0 \<le> flapping_buffer c" "flapping_buffer c < 2 ^ 20"
    and "0 \<le> flapping_index c" "flapping_index c < 20"
  shows "\<exists>c'. UpdateFlappingStatus now stateChange c = Inr c' \<and>
      (\<forall>j. bit (flapping_buffer c') j =
            (if j = nat (flapping_index c) then stateChange else bit (flapping_buffer c) j)) \<and>
      flapping_index c' = (flapping_index c + 1) mod 20 \<and>
      flapping_current c' =
        double_div (double_mul 100 (weighted_sum (flapping_buffer c') (flapping_index c'))) 20 \<and>
      \<bar>flapping_current c' -
         100 * exact_weighted_sum (flapping_buffer c') (flapping_index c') / 20\<bar> \<le> 1 / 10 ^ 12"
proof -
  let ?w = "(if stateChange
             then set_bit (nat (flapping_index c)) (word_of_int (flapping_buffer c) :: 20 word)
             else unset_bit (nat (flapping_index c)) (word_of_int (flapping_buffer c)))"
  have bits: "bit (uint ?w) j =
      (if j = nat (flapping_index c) then stateChange else bit (flapping_buffer c) j)" for j
    using assms(3,4) bit_20bit_int[OF assms(1,2), of j]
    by (auto simp add: bit_uint_iff bit_set_bit_iff bit_unset_bit_iff bit_word_of_int_iff)
  show ?thesis
    unfolding UpdateFlappingStatus_in_range[OF assms(3,4)]
    using bits flapping_value_error[of "uint ?w" "(flapping_index c + 1) mod 20"] by simp
qed

theorem C1_UpdateFlappingStatus_buffer_index_value_witness:
  "\<exists>c'. UpdateFlappingStatus 1000 True
       \<lparr>flapping_buffer = 1, flapping_index = 5, flapping_current = 0, flapping = False,
        flapping_last_change = 0, flapping_threshold_low = 25, flapping_threshold_high = 30,
        enable_flapping = True\<rparr> = Inr c' \<and>
     (\<forall>j. bit (flapping_buffer c') j = (j = 0 \<or> j = 5)) \<and>
     flapping_index c' = 6 \<and>
     weighted_sum (flapping_buffer c') (flapping_index c') = 5089067578928661 / 2 ^ 51 \<and>
     flapping_current c' = 3180667236830413 / 2 ^ 48 \<and>
     \<bar>flapping_current c' -
        100 * exact_weighted_sum (flapping_buffer c') (flapping_index c') / 20\<bar> \<le> 1 / 10 ^ 12"
proof -
  let ?c = "\<lparr>flapping_buffer = 1, flapping_index = 5, flapping_current = 0, flapping = False,
        flapping_last_change = 0, flapping_threshold_low = 25, flapping_threshold_high = 30,
        enable_flapping = True\<rparr>"
  have "\<exists>c'. UpdateFlappingStatus 1000 True ?c = Inr c' \<and>
      (\<forall>j. bit (flapping_buffer c') j =
            (if j = nat (flapping_index ?c) then True else bit (flapping_buffer ?c) j)) \<and>
      flapping_index c' = (flapping_index ?c + 1) mod 20 \<and>
      flapping_current c' =
        double_div (double_mul 100 (weighted_sum (flapping_buffer c') (flapping_index c'))) 20 \<and>
      \<bar>flapping_current c' -
         100 * exact_weighted_sum (flapping_buffer c') (flapping_index c') / 20\<bar> \<le> 1 / 10 ^ 12"
    by (rule C1_UpdateFlappingStatus_buffer_index_value) simp_all
  then obtain c' where ret: "UpdateFlappingStatus 1000 True ?c = Inr c'"
    and bits: "\<And>j. bit (flapping_buffer c') j =
            (if j = nat (flapping_index ?c) then True else bit (flapping_buffer ?c) j)"
    and idx: "flapping_index c' = (flapping_index ?c + 1) mod 20"
    and cur: "flapping_current c' =
        double_div (double_mul 100 (weighted_sum (flapping_buffer c') (flapping_index c'))) 20"
    and err: "\<bar>flapping_current c' -
         100 * exact_weighted_sum (flapping_buffer c') (flapping_index c') / 20\<bar> \<le> 1 / 10 ^ 12"
    by blast
  have b: "bit (flapping_buffer c') j = (j = 0 \<or> j = 5)" for j
    unfolding bits by (auto simp add: bit_1_iff)
  have i: "flapping_index c' = 6"
    unfolding idx by simp
  have w: "uint (set_bit 5 (1 :: 20 word)) = 33"
    by code_simp
  have buf: "flapping_buffer c' = 33"
    using ret by (subst (asm) UpdateFlappingStatus_in_range) (auto simp add: w)
  have s: "weighted_sum 33 6 = 5089067578928661 / 2251799813685248"
    by code_simp
  have v: "double_div (double_mul 100 (5089067578928661 / 2251799813685248)) 20 =
      3180667236830413 / 281474976710656"
    by code_simp
  have sum: "weighted_sum (flapping_buffer c') (flapping_index c') = 5089067578928661 / 2 ^ 51"
    unfolding buf i s by simp
  have val: "flapping_current c' = 3180667236830413 / 2 ^ 48"
    unfolding cur buf i s v by simp
  from ret b i sum val err show ?thesis
    by blast
qed

text \<open>
  The rounding can decide the flag. With the buffer 138880 (the slots 7, 9, 10, 11, 12
  and 17), the write index 0 and no state change, the exact percentage is 30, which is
  the high threshold; the computed percentage is \<open>30 + 1 / 2 ^ 47\<close>, and the call turns
  flapping on.
\<close>

lemma UpdateFlappingStatus_rounding_decides:
  "\<exists>c'. UpdateFlappingStatus 1000 False
       \<lparr>flapping_buffer = 138880, flapping_index = 0, flapping_current = 0, flapping = False,
        flapping_last_change = 0, flapping_threshold_low = 25, flapping_threshold_high = 30,
        enable_flapping = True\<rparr> = Inr c' \<and>
     100 * exact_weighted_sum (flapping_buffer c') (flapping_index c') / 20 = 30 \<and>
     flapping_current c' = 30 + 1 / 2 ^ 47 \<and> flapping c'"
proof -
  have w: "uint (unset_bit 0 (word_of_int 138880 :: 20 word)) = 138880"
    by code_simp
  have s: "double_div (double_mul 100 (weighted_sum 138880 1)) 20 =
      4222124650659841 / 140737488355328"
    by code_simp
  have e: "exact_weighted_sum 138880 1 = 6"
    by code_simp
  show ?thesis
    by (subst UpdateFlappingStatus_in_range) (simp_all add: w s e)
qed

text \<open>
  C2. The claim: the last-change timestamp is written exactly when the call changes the
  stored flapping flag. The code compares \<open>flapping\<close> with \<open>GetFlapping()\<close> after
  \<open>SetFlapping(flapping, true)\<close> has stored it, so the two are always equal and the
  timestamp is never written. Here the buffer is full, the entity is not flapping and
  the high threshold is 30: the call at time 1000 computes 99 percent and turns the
  flag on, and the timestamp stays 0.
\<close>

theorem C2_flapping_last_change_not_recorded:
  "UpdateFlappingStatus 1000 True
     \<lparr>flapping_buffer = 0xFFFFF, flapping_index = 0, flapping_current = 0, flapping = False,
      flapping_last_change = 0, flapping_threshold_low = 25, flapping_threshold_high = 30,
      enable_flapping = True\<rparr> =
   Inr \<lparr>flapping_buffer = 0xFFFFF, flapping_index = 1, flapping_current = 99, flapping = True,
      flapping_last_change = 0, flapping_threshold_low = 25, flapping_threshold_high = 30,
      enable_flapping = True\<rparr>"
proof -
  have w: "uint (set_bit 0 (word_of_int 0xFFFFF :: 20 word)) = 0xFFFFF"
    by code_simp
  have s: "double_div (double_mul 100 (weighted_sum 0xFFFFF 1)) 20 = 99"
    by code_simp
  show ?thesis
    by (subst UpdateFlappingStatus_in_range) (simp_all add: w s)
qed

text \<open>
  C3, as claimed, fails where the entity is flapping and the percentage equals the
  low threshold: an empty buffer and no state change give 0 percent, the low threshold
  is 0, and the flag goes from true to false.
\<close>

theorem C3_equal_to_low_threshold_counterexample:
  "\<exists>c'. UpdateFlappingStatus 1000 False
       \<lparr>flapping_buffer = 0, flapping_index = 0, flapping_current = 0, flapping = True,
        flapping_last_change = 0, flapping_threshold_low = 0, flapping_threshold_high = 30,
        enable_flapping = True\<rparr> = Inr c' \<and>
     flapping_current c' = 0 \<and> flapping_threshold_low c' = 0 \<and> \<not> flapping c'"
proof -
  have w: "uint (unset_bit 0 (word_of_int 0 :: 20 word)) = 0"
    by code_simp
  have s: "double_div (double_mul 100 (weighted_sum 0 1)) 20 = 0"
    by code_simp
  show ?thesis
    by (subst UpdateFlappingStatus_in_range) (simp_all add: w s)
qed

text \<open>
  C3, amended. For a write index in 0..19 the call returns and leaves both thresholds as
  they were; if the entity was flapping, the new flag is true exactly when the computed
  percentage strictly exceeds the low threshold; if it was not, exactly when the
  percentage strictly exceeds the high threshold. A percentage equal to the high
  threshold does not turn flapping on; a percentage equal to the low threshold turns
  flapping off.
\<close>

theorem C3_hysteresis_strict:
  assumes "0 \<le> flapping_index c" "flapping_index c < 20"
  shows "\<exists>c'. UpdateFlappingStatus now stateChange c = Inr c' \<and>
      flapping_threshold_low c' = flapping_threshold_low c \<and>
      flapping_threshold_high c' = flapping_threshold_high c \<and>
      (flapping c' \<longleftrightarrow>
         (if flapping c then flapping_current c' > flapping_threshold_low c
          else flapping_current c' > flapping_threshold_high c)) \<and>
      (\<not> flapping c \<and> flapping_current c' = flapping_threshold_high c \<longrightarrow> \<not> flapping c') \<and>
      (flapping c \<and> flapping_current c' = flapping_threshold_low c \<longrightarrow> \<not> flapping c')"
  unfolding UpdateFlappingStatus_in_range[OF assms] by simp

theorem C3_hysteresis_strict_witness:
  "\<exists>c'. UpdateFlappingStatus 1000 False
       \<lparr>flapping_buffer = 30464, flapping_index = 0, flapping_current = 0, flapping = False,
        flapping_last_change = 0, flapping_threshold_low = 25, flapping_threshold_high = 30,
        enable_flapping = True\<rparr> = Inr c' \<and>
     flapping_threshold_low c' = 25 \<and> flapping_threshold_high c' = 30 \<and>
     flapping_current c' = 30 \<and> \<not> flapping c'"
proof -
  let ?c = "\<lparr>flapping_buffer = 30464, flapping_index = 0, flapping_current = 0,
        flapping = False, flapping_last_change = 0, flapping_threshold_low = 25,
        flapping_threshold_high = 30, enable_flapping = True\<rparr>"
  have w: "uint (unset_bit 0 (word_of_int 30464 :: 20 word)) = 30464"
    by code_simp
  have s: "double_div (double_mul 100 (weighted_sum 30464 1)) 20 = 30"
    by code_simp
  have cur: "UpdateFlappingStatus 1000 False ?c = Inr c' \<Longrightarrow> flapping_current c' = 30" for c'
    by (subst (asm) UpdateFlappingStatus_in_range) (auto simp add: w s)
  have "0 \<le> flapping_index ?c" "flapping_index ?c < 20"
    by simp_all
  from C3_hysteresis_strict [OF this, of 1000 False] cur
  show ?thesis
    by auto
qed

section \<open>Properties of the dependency resolver\<close>
















text \<open>
  The loops of \<open>GetParentHosts\<close> and \<open>GetParentServices\<close>: one failing lookup makes the
  whole loop fail; if no lookup fails, the result holds what the lookups return.
\<close>

lemma GetParentHosts_loop_error:
  "\<exists>k\<in>set keys. k \<noteq> host_name h \<and> \<not> Host_Exists w k \<Longrightarrow>
     \<exists>e. GetParentHosts_loop w h keys parents = Inl e"
proof (induction keys arbitrary: parents)
  case Nil
  then show ?case by simp
next
  case (Cons key keys)
  show ?case
  proof (cases "key \<noteq> host_name h \<and> \<not> Host_Exists w key")
    case True
    then show ?thesis by (simp add: Host_GetByName_def Host_Exists_def)
  next
    case False
    with Cons.prems have "\<exists>k\<in>set keys. k \<noteq> host_name h \<and> \<not> Host_Exists w k" by auto
    from Cons.IH[OF this] show ?thesis
      by (auto split: sum.splits)
  qed
qed

lemma GetParentHosts_loop_ok:
  "\<forall>k\<in>set keys. k \<noteq> host_name h \<longrightarrow> Host_Exists w k \<Longrightarrow>
     \<exists>ps. GetParentHosts_loop w h keys parents = Inr ps \<and>
          set ps = set parents \<union>
            {p. \<exists>k\<in>set keys. k \<noteq> host_name h \<and> Host_GetByName w k = Inr p}"
proof (induction keys arbitrary: parents)
  case Nil
  then show ?case by simp
next
  case (Cons key keys)
  from Cons.prems have rest: "\<forall>k\<in>set keys. k \<noteq> host_name h \<longrightarrow> Host_Exists w k" by simp
  show ?case
  proof (cases "key = host_name h")
    case True
    with Cons.IH[OF rest, of parents] show ?thesis by auto
  next
    case False
    with Cons.prems obtain p where p: "Host_GetByName w key = Inr p"
      by (auto simp add: Host_Exists_def Host_GetByName_def)
    from Cons.IH[OF rest, of "List.insert p parents"] False p show ?thesis
      by auto
  qed
qed

lemma GetParentServices_loop_error:
  "\<exists>k\<in>set keys. \<exists>e. Host_ResolveService w h k = Inl e \<Longrightarrow>
     \<exists>e. GetParentServices_loop w h keys parents = Inl e"
proof (induction keys arbitrary: parents)
  case Nil
  then show ?case by simp
next
  case (Cons key keys)
  show ?case
  proof (cases "Host_ResolveService w h key")
    case (Inl e)
    then show ?thesis by simp
  next
    case (Inr s)
    with Cons.prems have "\<exists>k\<in>set keys. \<exists>e. Host_ResolveService w h k = Inl e" by auto
    from Cons.IH[OF this] Inr show ?thesis by simp
  qed
qed

lemma GetParentServices_loop_ok:
  "\<forall>k\<in>set keys. \<exists>s. Host_ResolveService w h k = Inr s \<Longrightarrow>
     \<exists>ss. GetParentServices_loop w h keys parents = Inr ss \<and>
          set ss = set parents \<union> {s. \<exists>k\<in>set keys. Host_ResolveService w h k = Inr s}"
proof (induction keys arbitrary: parents)
  case Nil
  then show ?case by simp
next
  case (Cons key keys)
  from Cons.prems obtain s where s: "Host_ResolveService w h key = Inr s" by auto
  from Cons.prems have rest: "\<forall>k\<in>set keys. \<exists>s. Host_ResolveService w h k = Inr s" by simp
  from Cons.IH[OF rest, of "List.insert s parents"] s show ?case
    by auto
qed

text \<open>
  C5, as claimed, fails: the host \<open>db\<close> depends on \<open>ghost\<close>, which is not registered, and
  on \<open>router\<close>, which is. \<open>GetParentHosts\<close> does not skip \<open>ghost\<close> and return \<open>router\<close>:
  it ends with the exception of \<open>Host::GetByName\<close>.
\<close>

theorem C5_missing_parent_host_counterexample:
  "GetParentHosts (example_world StateTypeHard) example_db =
     Inl (InvalidArgument ''Host 'ghost' does not exist.'') \<and>
   Host_Exists (example_world StateTypeHard) ''router''"
  by (simp add: GetParentHosts_def Host_GetByName_def Host_Exists_def example_world_def
      example_db_def)

text \<open>
  C5, amended. When \<open>GetParentHosts\<close> iterates the host-dependency map and a key other
  than the host's own name is not a registered host, the exception of the lookup ends
  the function and no set is returned; likewise \<open>GetParentServices\<close> ends with the
  exception of \<open>ResolveService\<close> for a key that does not resolve. When every lookup
  succeeds, the result holds exactly the entities the lookups return. The host's own
  name as a key of its host-dependency map is skipped and yields no parent.
\<close>

theorem C5_parent_lookup_failure_propagates:
  "(hostdependencies h = Some hdeps \<longrightarrow>
      ((\<exists>k\<in>set (map fst hdeps). k \<noteq> host_name h \<and> \<not> Host_Exists w k) \<longrightarrow>
         (\<exists>e. GetParentHosts w h = Inl e)) \<and>
      ((\<forall>k\<in>set (map fst hdeps). k \<noteq> host_name h \<longrightarrow> Host_Exists w k) \<longrightarrow>
         (\<exists>ps. GetParentHosts w h = Inr ps \<and>
            set ps = {p. \<exists>k\<in>set (map fst hdeps). k \<noteq> host_name h \<and> Host_GetByName w k = Inr p}))) \<and>
   (servicedependencies h = Some sdeps \<longrightarrow>
      ((\<exists>k\<in>set (map fst sdeps). \<exists>e. Host_ResolveService w h k = Inl e) \<longrightarrow>
         (\<exists>e. GetParentServices w h = Inl e)) \<and>
      ((\<forall>k\<in>set (map fst sdeps). \<exists>s. Host_ResolveService w h k = Inr s) \<longrightarrow>
         (\<exists>ss. GetParentServices w h = Inr ss \<and>
            set ss = {s. \<exists>k\<in>set (map fst sdeps). Host_ResolveService w h k = Inr s})))"
proof (intro conjI impI)
  assume "hostdependencies h = Some hdeps"
    and "\<exists>k\<in>set (map fst hdeps). k \<noteq> host_name h \<and> \<not> Host_Exists w k"
  then show "\<exists>e. GetParentHosts w h = Inl e"
    using GetParentHosts_loop_error[of "map fst hdeps" h w "[]"] by (simp add: GetParentHosts_def)
next
  assume "hostdependencies h = Some hdeps"
    and "\<forall>k\<in>set (map fst hdeps). k \<noteq> host_name h \<longrightarrow> Host_Exists w k"
  then show "\<exists>ps. GetParentHosts w h = Inr ps \<and>
            set ps = {p. \<exists>k\<in>set (map fst hdeps). k \<noteq> host_name h \<and> Host_GetByName w k = Inr p}"
    using GetParentHosts_loop_ok[of "map fst hdeps" h w "[]"] by (simp add: GetParentHosts_def)
next
  assume "servicedependencies h = Some sdeps"
    and "\<exists>k\<in>set (map fst sdeps). \<exists>e. Host_ResolveService w h k = Inl e"
  then show "\<exists>e. GetParentServices w h = Inl e"
    using GetParentServices_loop_error[of "map fst sdeps" w h "[]"] by (simp add: GetParentServices_def)
next
  assume "servicedependencies h = Some sdeps"
    and "\<forall>k\<in>set (map fst sdeps). \<exists>s. Host_ResolveService w h k = Inr s"
  then show "\<exists>ss. GetParentServices w h = Inr ss \<and>
            set ss = {s. \<exists>k\<in>set (map fst sdeps). Host_ResolveService w h k = Inr s}"
    using GetParentServices_loop_ok[of "map fst sdeps" w h "[]"] by (simp add: GetParentServices_def)
qed

theorem C5_parent_lookup_failure_propagates_witness:
  "(\<exists>e. GetParentHosts (example_world StateTypeHard) example_db = Inl e) \<and>
   (\<exists>ps. GetParentHosts (example_world StateTypeHard) example_web = Inr ps \<and>
      set ps = {example_router}) \<and>
   (\<exists>e. GetParentServices (example_world StateTypeHard) example_db = Inl e) \<and>
   (\<exists>ss. GetParentServices (example_world StateTypeHard) example_web = Inr ss \<and>
      set ss = {example_ping StateTypeHard})"
proof -
  let ?w = "example_world StateTypeHard"
  have db: "hostdependencies example_db = Some [(''ghost'', Empty), (''router'', Empty)]"
    "servicedependencies example_db = Some [(''backup'', Empty)]"
    by (simp_all add: example_db_def)
  have web: "hostdependencies example_web = Some [(''router'', Empty), (''web'', Empty)]"
    "servicedependencies example_web = Some [(''ping'', Empty)]"
    by (simp_all add: example_web_def)
  have names: "host_name example_db = ''db''" "host_name example_web = ''web''"
    by (simp_all add: example_db_def example_web_def)
  have hosts: "\<not> Host_Exists ?w ''ghost''" "Host_Exists ?w ''router''"
    "Host_GetByName ?w ''router'' = Inr example_router"
    by (simp_all add: Host_Exists_def Host_GetByName_def example_world_def)
  have svcs: "Host_ResolveService ?w example_web ''ping'' = Inr (example_ping StateTypeHard)"
    "\<exists>e. Host_ResolveService ?w example_db ''backup'' = Inl e"
    by (simp_all add: Host_ResolveService_def Service_Exists_def Service_GetByName_def
        example_world_def names)
  note db_thm = C5_parent_lookup_failure_propagates [of example_db
      "[(''ghost'', Empty), (''router'', Empty)]" ?w "[(''backup'', Empty)]"]
  note web_thm = C5_parent_lookup_failure_propagates [of example_web
      "[(''router'', Empty), (''web'', Empty)]" ?w "[(''ping'', Empty)]"]
  have 1: "\<exists>e. GetParentHosts ?w example_db = Inl e"
    using db_thm db hosts names by simp
  have 2: "\<exists>ps. GetParentHosts ?w example_web = Inr ps \<and> set ps = {example_router}"
    using web_thm web hosts names by auto
  have 3: "\<exists>e. GetParentServices ?w example_db = Inl e"
    using db_thm db svcs by simp
  have 4: "\<exists>ss. GetParentServices ?w example_web = Inr ss \<and> set ss = {example_ping StateTypeHard}"
    using web_thm web svcs by auto
  from 1 2 3 4 show ?thesis by blast
qed

section \<open>Properties of the acknowledgement accessors\<close>

lemmas ack_defs = AcknowledgementNone_def AcknowledgementNormal_def AcknowledgementSticky_def
  SetAcknowledgement_def SetAcknowledgementExpiry_def GetAcknowledgementExpiry_def

text \<open>
  C6. For a host whose stored acknowledgement type is not none: if the stored expiry is
  nonzero and strictly earlier than the current time, \<open>GetAcknowledgement\<close> stores the
  type none and the expiry 0 and returns none; otherwise it returns the stored type and
  changes nothing. In particular, after \<open>SetAcknowledgement\<close> with a type other than
  none and \<open>SetAcknowledgementExpiry\<close> with a nonzero time in the past,
  \<open>GetAcknowledgement\<close> returns none and leaves both fields cleared.
\<close>

theorem C6_GetAcknowledgement_expiry:
  "(acknowledgement h = Some v \<and> v \<noteq> AcknowledgementNone \<longrightarrow>
      GetAcknowledgement now h =
        (if GetAcknowledgementExpiry h \<noteq> 0 \<and> GetAcknowledgementExpiry h < now
         then (AcknowledgementNone,
               h\<lparr>acknowledgement := Some AcknowledgementNone, acknowledgement_expiry := Some 0\<rparr>)
         else (v, h))) \<and>
   (a \<noteq> AcknowledgementNone \<and> t \<noteq> 0 \<and> t < now \<longrightarrow>
      GetAcknowledgement now (SetAcknowledgementExpiry t (SetAcknowledgement a h)) =
        (AcknowledgementNone,
         h\<lparr>acknowledgement := Some AcknowledgementNone, acknowledgement_expiry := Some 0\<rparr>))"
  by (simp add: GetAcknowledgement_def Let_def SetAcknowledgement_def SetAcknowledgementExpiry_def
      GetAcknowledgementExpiry_def)

theorem C6_GetAcknowledgement_expiry_witness:
  "GetAcknowledgement 1000 (example_router\<lparr>acknowledgement := Some AcknowledgementNormal,
        acknowledgement_expiry := Some 999\<rparr>) =
     (AcknowledgementNone,
      example_router\<lparr>acknowledgement := Some AcknowledgementNone, acknowledgement_expiry := Some 0\<rparr>) \<and>
   GetAcknowledgement 1000 (example_router\<lparr>acknowledgement := Some AcknowledgementNormal,
        acknowledgement_expiry := Some 1000\<rparr>) =
     (AcknowledgementNormal, example_router\<lparr>acknowledgement := Some AcknowledgementNormal,
        acknowledgement_expiry := Some 1000\<rparr>) \<and>
   GetAcknowledgement 1000
       (SetAcknowledgementExpiry 500 (SetAcknowledgement AcknowledgementSticky example_router)) =
     (AcknowledgementNone,
      example_router\<lparr>acknowledgement := Some AcknowledgementNone, acknowledgement_expiry := Some 0\<rparr>)"
  using C6_GetAcknowledgement_expiry [of
      "example_router\<lparr>acknowledgement := Some AcknowledgementNormal,
        acknowledgement_expiry := Some 999\<rparr>" AcknowledgementNormal 1000 AcknowledgementSticky 500]
    C6_GetAcknowledgement_expiry [of
      "example_router\<lparr>acknowledgement := Some AcknowledgementNormal,
        acknowledgement_expiry := Some 1000\<rparr>" AcknowledgementNormal 1000 AcknowledgementSticky 500]
    C6_GetAcknowledgement_expiry [of example_router 0 1000 AcknowledgementSticky 500]
  by (simp add: ack_defs example_router_def)

text \<open>
  C10. For a host whose acknowledgement attribute is empty, \<open>GetAcknowledgement\<close> returns
  none and leaves the host as it is, a stale expiry included.
\<close>

theorem C10_GetAcknowledgement_empty:
  "acknowledgement h = None \<Longrightarrow> GetAcknowledgement now h = (AcknowledgementNone, h)"
  by (simp add: GetAcknowledgement_def)

theorem C10_GetAcknowledgement_empty_witness:
  "GetAcknowledgement 1000 (example_router\<lparr>acknowledgement_expiry := Some 5\<rparr>) =
     (AcknowledgementNone, example_router\<lparr>acknowledgement_expiry := Some 5\<rparr>)"
  using C10_GetAcknowledgement_empty [of "example_router\<lparr>acknowledgement_expiry := Some 5\<rparr>" 1000]
  by (simp add: example_router_def)

section \<open>Properties of the configuration change bridge\<close>

text \<open>Dictionaries as association lists.\<close>

lemma map_of_Dictionary_Set: "map_of (Dictionary_Set d k v) = (map_of d)(k \<mapsto> v)"
  by (induction d k v rule: Dictionary_Set.induct) (auto simp add: fun_eq_iff)

lemma Dictionary_Set_fresh: "k \<notin> fst ` set d \<Longrightarrow> Dictionary_Set d k v = d @ [(k, v)]"
  by (induction d k v rule: Dictionary_Set.induct) auto

lemma map_of_filter_key:
  "map_of (filter (\<lambda>(k, i). k \<noteq> key) d) k' = (if k' = key then None else map_of d k')"
  by (induction d) auto

text \<open>What the loop body builds.\<close>

lemma build_service_item_invalid:
  "\<not> IsScalar v \<Longrightarrow> \<not> IsDictionary v \<Longrightarrow>
     build_service_item item h k v =
       Inl (InvalidArgument ''Service description must be either a string or a dictionary.'')"
  by (cases v) (simp_all add: build_service_item_def IsScalar_def IsDictionary_def Let_def)

lemma CopyServiceAttributes_name_type:
  "item_name (CopyServiceAttributes g b) = item_name b"
  "item_type (CopyServiceAttributes g b) = item_type b"
  by (simp_all add: CopyServiceAttributes_def Let_def AddExpression_def)

lemma build_service_item_ok:
  assumes "well_formed_description v"
  shows "\<exists>si. build_service_item item h k v = Inr si \<and>
           item_name si = synthesized_name item k \<and> item_type si = ''Service''"
proof (cases v)
  case (Scalar s)
  then show ?thesis
    by (simp add: build_service_item_def Let_def Compile_def AddParent_def
        CopyServiceAttributes_name_type AddExpression_def SetName_def SetType_def
        ConfigItemBuilder_def synthesized_name_def)
next
  case (DictionaryObject d)
  with assms obtain parent where "Value_to_String (Dictionary_Get d ''service'') = Inr parent"
    by (auto simp add: well_formed_description_def)
  with DictionaryObject show ?thesis
    by (simp add: build_service_item_def Let_def Compile_def AddParent_def
        CopyServiceAttributes_name_type AddExpression_def SetName_def SetType_def
        ConfigItemBuilder_def synthesized_name_def)
qed (use assms in \<open>simp_all add: well_formed_description_def\<close>)

lemma synthesized_name_inj: "synthesized_name item k = synthesized_name item k' \<longleftrightarrow> k = k'"
  by (simp add: synthesized_name_def)

lemma ObjectCommittedHandler_build_ok:
  "\<forall>(k, v)\<in>set descs. well_formed_description v \<Longrightarrow> distinct (map fst descs) \<Longrightarrow>
   \<forall>(k, v)\<in>set descs. synthesized_name item k \<notin> fst ` set new \<Longrightarrow>
   ObjectCommittedHandler_build item h descs new w =
     (Inr (new @ map (\<lambda>d. (synthesized_name item (fst d), Some (built item h d))) descs),
      commit_all (map (built item h) descs) w)"
proof (induction descs arbitrary: new w)
  case Nil
  then show ?case by simp
next
  case (Cons d descs)
  obtain k v where d: "d = (k, v)" by (cases d)
  from Cons.prems(1) d have "well_formed_description v" by simp
  then obtain si where si: "build_service_item item h k v = Inr si"
    using build_service_item_ok by blast
  let ?new = "new @ [(synthesized_name item k, Some si)]"
  from Cons.prems(3) d have set: "Dictionary_Set new (item_name item @ ''-'' @ k) (Some si) = ?new"
    by (simp add: Dictionary_Set_fresh synthesized_name_def)
  have fresh: "\<forall>(k', v')\<in>set descs. synthesized_name item k' \<notin> fst ` set ?new"
    using Cons.prems(2,3) d by (auto simp add: synthesized_name_inj rev_image_eqI)
  have "ObjectCommittedHandler_build item h descs ?new (ConfigItem_Commit si w) =
     (Inr (?new @ map (\<lambda>d. (synthesized_name item (fst d), Some (built item h d))) descs),
      commit_all (map (built item h) descs) (ConfigItem_Commit si w))"
    using Cons.prems(1,2) by (intro Cons.IH fresh) simp_all
  moreover have "ObjectCommittedHandler_build item h (d # descs) new w =
      ObjectCommittedHandler_build item h descs ?new (ConfigItem_Commit si w)"
    by (simp add: d si set[simplified])
  ultimately show ?case
    by (simp add: d si)
qed

lemma commit_all_frame:
  "hosts (commit_all items w) = hosts w"
  "compiler_errors (commit_all items w) = compiler_errors w"
  by (induction items arbitrary: w) (simp_all add: ConfigItem_Commit_def)

lemma commit_all_calls:
  "registry_calls (commit_all items w) = registry_calls w @ map (\<lambda>i. Committed (item_name i)) items"
  by (induction items arbitrary: w) (simp_all add: ConfigItem_Commit_def)

lemma commit_all_lookup:
  "map_of (config_items (commit_all items w)) key \<noteq> None \<longleftrightarrow>
     key \<in> (\<lambda>i. (item_type i, item_name i)) ` set items \<or> map_of (config_items w) key \<noteq> None"
  by (induction items arbitrary: w) (auto simp add: ConfigItem_Commit_def map_of_Dictionary_Set)

lemma unregister_all_frame:
  "hosts (unregister_all items w) = hosts w"
  "compiler_errors (unregister_all items w) = compiler_errors w"
  by (induction items arbitrary: w) (simp_all add: ConfigItem_Unregister_def)

lemma unregister_all_calls:
  "registry_calls (unregister_all items w) =
     registry_calls w @ map (\<lambda>i. Unregistered (item_name i)) items"
  by (induction items arbitrary: w) (simp_all add: ConfigItem_Unregister_def)

lemma unregister_all_lookup:
  "map_of (config_items (unregister_all items w)) key =
     (if key \<in> (\<lambda>i. (item_type i, item_name i)) ` set items then None
      else map_of (config_items w) key)"
  by (induction items arbitrary: w) (auto simp add: ConfigItem_Unregister_def map_of_filter_key)

lemma ObjectCommittedHandler_unregister_eq:
  "ObjectCommittedHandler_unregister new olds w =
     unregister_all (filter (\<lambda>s. \<not> Dictionary_Contains new (item_name s)) (List.map_filter snd olds)) w"
  by (induction new olds w rule: ObjectCommittedHandler_unregister.induct)
     (simp_all add: List.map_filter_simps split: option.splits)

text \<open>
  One commit of a registered host with well-formed declarations, in closed form: the
  calls in order, the stored set, and the registry afterwards.
\<close>

lemma map_of_map_named:
  "map_of (map (\<lambda>(n, h). if n = name then (n, f h) else (n, h)) hs) k =
     (if k = name then map_option f (map_of hs k) else map_of hs k)"
  by (induction hs) auto

lemma built_name_type:
  assumes "\<forall>(k, v)\<in>set descs. well_formed_description v"
  shows "map item_name (map (built item h) descs) = map (\<lambda>d. synthesized_name item (fst d)) descs"
    and "\<forall>s\<in>set (map (built item h) descs). item_type s = ''Service''"
proof -
  have "item_name (built item h d) = synthesized_name item (fst d) \<and>
        item_type (built item h d) = ''Service''" if "d \<in> set descs" for d
  proof -
    obtain k v where d: "d = (k, v)" by (cases d)
    with that assms have "well_formed_description v" by auto
    from build_service_item_ok[OF this, of item h k] d show ?thesis by auto
  qed
  then show "map item_name (map (built item h) descs) = map (\<lambda>d. synthesized_name item (fst d)) descs"
    and "\<forall>s\<in>set (map (built item h) descs). item_type s = ''Service''"
    by simp_all
qed

lemma map_filter_snd_Some: "List.map_filter snd (map (\<lambda>d. (f d, Some (g d))) xs) = map g xs"
  by (induction xs) (simp_all add: List.map_filter_simps)

lemma synthesized_names_eq:
  "synthesized_names item h = map (\<lambda>d. synthesized_name item (fst d)) (inline_services h)"
  by (simp add: synthesized_names_def synthesized_name_def case_prod_beta)

lemma Host_SetConvenienceServices_simps:
  "registry_calls (Host_SetConvenienceServices name new w) =
     registry_calls w @ [ConvenienceServicesSet name (map fst new)]"
  "config_items (Host_SetConvenienceServices name new w) = config_items w"
  "map_of (hosts (Host_SetConvenienceServices name new w)) k =
     (if k = name then map_option (\<lambda>h. h\<lparr>convenience_services := Some new\<rparr>) (map_of (hosts w) k)
      else map_of (hosts w) k)"
  by (simp_all add: Host_SetConvenienceServices_def map_of_map_named)

lemma ObjectCommittedHandler_single:
  assumes "item_type item = ''Host''"
    and "map_of (hosts w) (item_name item) = Some h"
    and "\<forall>(k, v)\<in>set (inline_services h). well_formed_description v"
    and "distinct (map fst (inline_services h))"
  defines "new \<equiv> synthesized_names item h"
  defines "dropped \<equiv> filter (\<lambda>s. item_name s \<notin> set new) (previously_synthesized h)"
  shows "\<exists>w1 olds1. ObjectCommittedHandler item w = (Inr (), w1) \<and>
     registry_calls w1 =
       registry_calls w @ map Committed new @ map (\<lambda>s. Unregistered (item_name s)) dropped @
       [ConvenienceServicesSet (item_name item) new] \<and>
     map_of (hosts w1) (item_name item) = Some (h\<lparr>convenience_services := Some olds1\<rparr>) \<and>
     map fst olds1 = new \<and>
     map item_name (List.map_filter snd olds1) = new \<and>
     (\<forall>s\<in>set (List.map_filter snd olds1). item_type s = ''Service'') \<and>
     (\<forall>t n. ConfigItem_GetObject w1 t n \<noteq> None \<longleftrightarrow>
        (t, n) \<notin> (\<lambda>s. (item_type s, item_name s)) ` set dropped \<and>
        ((t = ''Service'' \<and> n \<in> set new) \<or> ConfigItem_GetObject w t n \<noteq> None))"
proof -
  let ?descs = "inline_services h"
  let ?items = "map (built item h) ?descs"
  let ?newd = "map (\<lambda>d. (synthesized_name item (fst d), Some (built item h d))) ?descs"
  let ?w1 = "commit_all ?items w"
  let ?w2 = "unregister_all dropped ?w1"
  let ?w3 = "Host_SetConvenienceServices (item_name item) ?newd ?w2"
  have fst_newd: "map fst ?newd = new"
    by (simp add: new_def synthesized_names_eq comp_def)
  have contains: "Dictionary_Contains ?newd n \<longleftrightarrow> n \<in> set new" for n
    unfolding Dictionary_Contains_def fst_newd[symmetric]
    by (metis (no_types, lifting) domIff dom_map_of_conv_image_fst list.set_map)
  have build: "ObjectCommittedHandler_build item h ?descs [] w = (Inr ?newd, ?w1)"
    using ObjectCommittedHandler_build_ok[OF assms(3,4), of item "[]" h w] by simp
  have build': "(case host_services h of None \<Rightarrow> (Inr [], w)
        | Some serviceDescs \<Rightarrow> ObjectCommittedHandler_build item h serviceDescs [] w) =
      (Inr ?newd, ?w1)"
    using build by (cases "host_services h") (simp_all add: inline_services_def)
  have unreg: "(case convenience_services h of None \<Rightarrow> ?w1
        | Some olds \<Rightarrow> ObjectCommittedHandler_unregister ?newd olds ?w1) = ?w2"
    by (cases "convenience_services h")
       (simp_all add: ObjectCommittedHandler_unregister_eq dropped_def previously_synthesized_def
          contains)
  have run: "ObjectCommittedHandler item w = (Inr (), ?w3)"
    using assms(1,2)
    by (simp add: ObjectCommittedHandler_def Let_def Host_Exists_def Host_GetByName_def
        build' unreg)
  have names: "map item_name ?items = new"
    using built_name_type(1)[OF assms(3), of item h] by (simp add: new_def synthesized_names_eq)
  have types: "\<forall>s\<in>set ?items. item_type s = ''Service''"
    using built_name_type(2)[OF assms(3), of item h] .
  have calls: "registry_calls ?w3 =
       registry_calls w @ map Committed new @ map (\<lambda>s. Unregistered (item_name s)) dropped @
       [ConvenienceServicesSet (item_name item) new]"
  proof -
    have "map (\<lambda>i. Committed (item_name i)) ?items = map Committed (map item_name ?items)"
      by (simp only: map_map comp_def)
    then have "map (\<lambda>i. Committed (item_name i)) ?items = map Committed new"
      unfolding names .
    then show ?thesis
      unfolding Host_SetConvenienceServices_simps fst_newd unregister_all_calls commit_all_calls
      by simp
  qed
  have host: "map_of (hosts ?w3) (item_name item) = Some (h\<lparr>convenience_services := Some ?newd\<rparr>)"
    unfolding Host_SetConvenienceServices_simps unregister_all_frame commit_all_frame
    using assms(2) by simp
  have keys: "(\<lambda>i. (item_type i, item_name i)) ` set ?items = (\<lambda>n. (''Service'', n)) ` set new"
  proof -
    have "(\<lambda>i. (item_type i, item_name i)) ` set ?items = (\<lambda>i. (''Service'', item_name i)) ` set ?items"
      using types by (intro image_cong) auto
    also have "\<dots> = (\<lambda>n. (''Service'', n)) ` set (map item_name ?items)"
      by (simp add: image_image)
    finally show ?thesis unfolding names .
  qed
  have registry: "ConfigItem_GetObject ?w3 t n \<noteq> None \<longleftrightarrow>
        (t, n) \<notin> (\<lambda>s. (item_type s, item_name s)) ` set dropped \<and>
        ((t = ''Service'' \<and> n \<in> set new) \<or> ConfigItem_GetObject w t n \<noteq> None)" for t n
  proof -
    have "ConfigItem_GetObject ?w3 t n = map_of (config_items ?w2) (t, n)"
      unfolding ConfigItem_GetObject_def Host_SetConvenienceServices_simps ..
    then show ?thesis
      using commit_all_lookup[where items = ?items and w = w and key = "(t, n)"]
      unfolding unregister_all_lookup keys ConfigItem_GetObject_def by auto
  qed
  have "map fst ?newd = new \<and> map item_name (List.map_filter snd ?newd) = new \<and>
     (\<forall>s\<in>set (List.map_filter snd ?newd). item_type s = ''Service'')"
    using fst_newd names types unfolding map_filter_snd_Some by blast
  with run calls host registry show ?thesis
    by blast
qed

lemma Host_SetServices_simps:
  "config_items (Host_SetServices name descs w) = config_items w"
  "registry_calls (Host_SetServices name descs w) = registry_calls w"
  "map_of (hosts (Host_SetServices name descs w)) k =
     (if k = name then map_option (\<lambda>h. h\<lparr>host_services := Some descs\<rparr>) (map_of (hosts w) k)
      else map_of (hosts w) k)"
  by (simp_all add: Host_SetServices_def map_of_map_named)

text \<open>
  C7, as claimed, fails for a host with a service declaration that is neither a scalar
  nor a dictionary. On the commit of \<open>proxy\<close> the handler commits \<open>proxy-dns\<close> and ends with
  \<open>std::invalid_argument\<close> at \<open>ftp\<close>: the declared \<open>http\<close> is never built, the previously
  synthesized \<open>proxy-old\<close>, absent from the new declarations, stays registered, and the
  host keeps its old stored set.
\<close>

theorem C7_invalid_declaration_counterexample:
  "\<exists>w'. ObjectCommittedHandler example_proxy_item example_proxy_world =
       (Inl (InvalidArgument ''Service description must be either a string or a dictionary.''),
        w') \<and>
     registry_calls w' = [Committed ''proxy-dns''] \<and>
     ConfigItem_GetObject w' ''Service'' ''proxy-dns'' \<noteq> None \<and>
     ConfigItem_GetObject w' ''Service'' ''proxy-http'' = None \<and>
     ConfigItem_GetObject w' ''Service'' ''proxy-old'' = Some example_proxy_old \<and>
     map_of (hosts w') ''proxy'' = Some example_proxy \<and>
     map_option (map fst) (convenience_services example_proxy) = Some [''proxy-old'']"
  by (simp add: ObjectCommittedHandler_def Host_Exists_def Host_GetByName_def
      example_proxy_world_def example_proxy_def example_proxy_item_def initial_world_def
      build_service_item_def Let_def ConfigItem_Commit_def ConfigItem_GetObject_def
      Compile_def AddParent_def CopyServiceAttributes_def Host_Get_def Dictionary_Get_def
      AddExpression_def SetName_def SetType_def ConfigItemBuilder_def example_proxy_old_def)

text \<open>
  C7, amended. On a commit of a registered host whose inline service declarations are well
  formed, the handler returns, and the calls it makes are, in this order: the commit of
  every synthesized service of the new set, the unregistration of exactly those
  previously synthesized services whose names are absent from the new set, and the
  store of the new set into the host. Afterwards every service of the new set is
  registered and every dropped one is not. When the declarations then change and the
  host is committed again, the second new set is stored, and of the names of both
  generations exactly those of the second are registered.
\<close>

theorem C7_ObjectCommittedHandler_build_diff_swap:
  assumes "item_type item = ''Host''"
    and "map_of (hosts w) (item_name item) = Some h"
    and "\<forall>(k, v)\<in>set (inline_services h). well_formed_description v"
    and "distinct (map fst (inline_services h))"
    and "\<forall>(k, v)\<in>set descs'. well_formed_description v"
    and "distinct (map fst descs')"
  defines "new \<equiv> synthesized_names item h"
    and "new' \<equiv> map (\<lambda>(k, v). item_name item @ ''-'' @ k) descs'"
  shows "\<exists>w1 h1. ObjectCommittedHandler item w = (Inr (), w1) \<and>
      registry_calls w1 = registry_calls w @ map Committed new @
         map Unregistered (filter (\<lambda>n. n \<notin> set new) (map item_name (previously_synthesized h))) @
         [ConvenienceServicesSet (item_name item) new] \<and>
      map_of (hosts w1) (item_name item) = Some h1 \<and>
      map_option (map fst) (convenience_services h1) = Some new \<and>
      (\<forall>n\<in>set new. ConfigItem_GetObject w1 ''Service'' n \<noteq> None) \<and>
      (\<forall>s\<in>set (previously_synthesized h). item_name s \<notin> set new \<longrightarrow>
          ConfigItem_GetObject w1 (item_type s) (item_name s) = None) \<and>
      (\<exists>w2 h2. ObjectCommittedHandler item (Host_SetServices (item_name item) descs' w1) =
                 (Inr (), w2) \<and>
         map_of (hosts w2) (item_name item) = Some h2 \<and>
         map_option (map fst) (convenience_services h2) = Some new' \<and>
         (\<forall>n\<in>set new \<union> set new'. ConfigItem_GetObject w2 ''Service'' n \<noteq> None \<longleftrightarrow> n \<in> set new'))"
proof -
  define dropped where "dropped = filter (\<lambda>s. item_name s \<notin> set new) (previously_synthesized h)"
  from ObjectCommittedHandler_single[OF assms(1-4), folded new_def, folded dropped_def]
  obtain w1 olds1 where all1: "ObjectCommittedHandler item w = (Inr (), w1) \<and>
     registry_calls w1 =
       registry_calls w @ map Committed new @ map (\<lambda>s. Unregistered (item_name s)) dropped @
       [ConvenienceServicesSet (item_name item) new] \<and>
     map_of (hosts w1) (item_name item) = Some (h\<lparr>convenience_services := Some olds1\<rparr>) \<and>
     map fst olds1 = new \<and>
     map item_name (List.map_filter snd olds1) = new \<and>
     (\<forall>s\<in>set (List.map_filter snd olds1). item_type s = ''Service'') \<and>
     (\<forall>t n. ConfigItem_GetObject w1 t n \<noteq> None \<longleftrightarrow>
        (t, n) \<notin> (\<lambda>s. (item_type s, item_name s)) ` set dropped \<and>
        ((t = ''Service'' \<and> n \<in> set new) \<or> ConfigItem_GetObject w t n \<noteq> None))"
    by (elim exE) (rule that)
  note run1 = all1[THEN conjunct1]
    and calls1 = all1[THEN conjunct2, THEN conjunct1]
    and host1 = all1[THEN conjunct2, THEN conjunct2, THEN conjunct1]
    and keys1 = all1[THEN conjunct2, THEN conjunct2, THEN conjunct2, THEN conjunct1]
    and names1 = all1[THEN conjunct2, THEN conjunct2, THEN conjunct2, THEN conjunct2,
        THEN conjunct1]
    and types1 = all1[THEN conjunct2, THEN conjunct2, THEN conjunct2, THEN conjunct2,
        THEN conjunct2, THEN conjunct1]
    and reg1 = all1[THEN conjunct2, THEN conjunct2, THEN conjunct2, THEN conjunct2,
        THEN conjunct2, THEN conjunct2]
  let ?h1 = "h\<lparr>convenience_services := Some olds1\<rparr>"
  have dropped_names: "map (\<lambda>s. Unregistered (item_name s)) dropped =
      map Unregistered (filter (\<lambda>n. n \<notin> set new) (map item_name (previously_synthesized h)))"
    unfolding dropped_def by (simp add: filter_map comp_def)
  have stored1: "map_option (map fst) (convenience_services ?h1) = Some new"
    using keys1 by simp
  have kept1: "\<forall>n\<in>set new. ConfigItem_GetObject w1 ''Service'' n \<noteq> None"
  proof
    fix n assume n: "n \<in> set new"
    have "(''Service'', n) \<notin> (\<lambda>s. (item_type s, item_name s)) ` set dropped"
    proof
      assume "(''Service'', n) \<in> (\<lambda>s. (item_type s, item_name s)) ` set dropped"
      then obtain s where "s \<in> set dropped" and "(''Service'', n) = (item_type s, item_name s)"
        by (rule imageE)
      then have "item_name s \<notin> set new" "item_name s = n"
        unfolding dropped_def by simp_all
      with n show False by simp
    qed
    with n show "ConfigItem_GetObject w1 ''Service'' n \<noteq> None"
      by (simp only: reg1[rule_format, of "''Service''" n] simp_thms)
  qed
  have gone1: "\<forall>s\<in>set (previously_synthesized h). item_name s \<notin> set new \<longrightarrow>
          ConfigItem_GetObject w1 (item_type s) (item_name s) = None"
  proof (intro ballI impI)
    fix s assume "s \<in> set (previously_synthesized h)" "item_name s \<notin> set new"
    then have "s \<in> set dropped"
      unfolding dropped_def by simp
    then have "(item_type s, item_name s) \<in> (\<lambda>s. (item_type s, item_name s)) ` set dropped"
      by (rule imageI)
    then have "\<not> ConfigItem_GetObject w1 (item_type s) (item_name s) \<noteq> None"
      by (simp only: reg1[rule_format, of "item_type s" "item_name s"] simp_thms)
    then show "ConfigItem_GetObject w1 (item_type s) (item_name s) = None" by simp
  qed
  let ?w1' = "Host_SetServices (item_name item) descs' w1"
  let ?h1' = "?h1\<lparr>host_services := Some descs'\<rparr>"
  have host1': "map_of (hosts ?w1') (item_name item) = Some ?h1'"
    unfolding Host_SetServices_simps using host1 by simp
  have inline1': "inline_services ?h1' = descs'"
    by (simp add: inline_services_def)
  have prev1': "previously_synthesized ?h1' = List.map_filter snd olds1"
    by (simp add: previously_synthesized_def)
  have new1': "synthesized_names item ?h1' = new'"
    unfolding synthesized_names_def inline1' new'_def ..
  define dropped' where
    "dropped' = filter (\<lambda>s. item_name s \<notin> set new') (List.map_filter snd olds1)"
  have wf': "\<forall>(k, v)\<in>set (inline_services ?h1'). well_formed_description v"
    "distinct (map fst (inline_services ?h1'))"
    unfolding inline1' using assms(5,6) by simp_all
  from ObjectCommittedHandler_single[OF assms(1) host1' wf', unfolded new1' prev1',
      folded dropped'_def]
  obtain w2 olds2 where all2: "ObjectCommittedHandler item ?w1' = (Inr (), w2) \<and>
     registry_calls w2 =
       registry_calls ?w1' @ map Committed new' @ map (\<lambda>s. Unregistered (item_name s)) dropped' @
       [ConvenienceServicesSet (item_name item) new'] \<and>
     map_of (hosts w2) (item_name item) = Some (?h1'\<lparr>convenience_services := Some olds2\<rparr>) \<and>
     map fst olds2 = new' \<and>
     map item_name (List.map_filter snd olds2) = new' \<and>
     (\<forall>s\<in>set (List.map_filter snd olds2). item_type s = ''Service'') \<and>
     (\<forall>t n. ConfigItem_GetObject w2 t n \<noteq> None \<longleftrightarrow>
        (t, n) \<notin> (\<lambda>s. (item_type s, item_name s)) ` set dropped' \<and>
        ((t = ''Service'' \<and> n \<in> set new') \<or> ConfigItem_GetObject ?w1' t n \<noteq> None))"
    by (elim exE) (rule that)
  note run2 = all2[THEN conjunct1]
    and host2 = all2[THEN conjunct2, THEN conjunct2, THEN conjunct1]
    and keys2 = all2[THEN conjunct2, THEN conjunct2, THEN conjunct2, THEN conjunct1]
    and reg2 = all2[THEN conjunct2, THEN conjunct2, THEN conjunct2, THEN conjunct2,
        THEN conjunct2, THEN conjunct2]
  have dropped'_keys: "(''Service'', n) \<in> (\<lambda>s. (item_type s, item_name s)) ` set dropped' \<longleftrightarrow>
      n \<in> set new \<and> n \<notin> set new'" for n
  proof
    assume "(''Service'', n) \<in> (\<lambda>s. (item_type s, item_name s)) ` set dropped'"
    then obtain s where "s \<in> set dropped'" and "(''Service'', n) = (item_type s, item_name s)"
      by (rule imageE)
    then have s: "s \<in> set (List.map_filter snd olds1)" "item_name s \<notin> set new'"
      "item_name s = n"
      unfolding dropped'_def by simp_all
    from s(1) have "item_name s \<in> set (map item_name (List.map_filter snd olds1))"
      by simp
    then have "item_name s \<in> set new"
      unfolding names1 .
    with s show "n \<in> set new \<and> n \<notin> set new'"
      by simp
  next
    assume n: "n \<in> set new \<and> n \<notin> set new'"
    then have "n \<in> set (map item_name (List.map_filter snd olds1))"
      unfolding names1 by simp
    then have "n \<in> item_name ` set (List.map_filter snd olds1)"
      by simp
    then obtain s where s: "s \<in> set (List.map_filter snd olds1)" "n = item_name s"
      by (rule imageE)
    with types1 have "item_type s = ''Service''" by simp
    with s n have "s \<in> set dropped'" "(''Service'', n) = (item_type s, item_name s)"
      unfolding dropped'_def by simp_all
    then show "(''Service'', n) \<in> (\<lambda>s. (item_type s, item_name s)) ` set dropped'"
      by (rule rev_image_eqI)
  qed
  have final: "\<forall>n\<in>set new \<union> set new'. ConfigItem_GetObject w2 ''Service'' n \<noteq> None \<longleftrightarrow> n \<in> set new'"
  proof
    fix n assume "n \<in> set new \<union> set new'"
    then show "ConfigItem_GetObject w2 ''Service'' n \<noteq> None \<longleftrightarrow> n \<in> set new'"
      unfolding reg2[rule_format, of "''Service''" n] dropped'_keys[of n] by blast
  qed
  have stored2: "map_option (map fst) (convenience_services (?h1'\<lparr>convenience_services := Some olds2\<rparr>)) =
      Some new'"
    using keys2 by simp
  have second: "\<exists>w2 h2. ObjectCommittedHandler item ?w1' = (Inr (), w2) \<and>
         map_of (hosts w2) (item_name item) = Some h2 \<and>
         map_option (map fst) (convenience_services h2) = Some new' \<and>
         (\<forall>n\<in>set new \<union> set new'. ConfigItem_GetObject w2 ''Service'' n \<noteq> None \<longleftrightarrow> n \<in> set new')"
    apply (rule exI[of _ w2])
    apply (rule exI[of _ "?h1'\<lparr>convenience_services := Some olds2\<rparr>"])
    apply (intro conjI)
       apply (rule run2)
      apply (rule host2)
     apply (rule stored2)
    apply (rule final)
    done
  show ?thesis
    apply (rule exI[of _ w1])
    apply (rule exI[of _ ?h1])
    apply (intro conjI)
          apply (rule run1)
         apply (rule calls1[unfolded dropped_names])
        apply (rule host1)
       apply (rule stored1)
      apply (rule kept1)
     apply (rule gone1)
    apply (rule second)
    done
qed

theorem C7_ObjectCommittedHandler_build_diff_swap_witness:
  "\<exists>w1 w2. ObjectCommittedHandler example_shop_item example_shop_world = (Inr (), w1) \<and>
     registry_calls w1 =
       [Committed ''shop-http'', Committed ''shop-ssh'',
        ConvenienceServicesSet ''shop'' [''shop-http'', ''shop-ssh'']] \<and>
     ConfigItem_GetObject w1 ''Service'' ''shop-http'' \<noteq> None \<and>
     ConfigItem_GetObject w1 ''Service'' ''shop-ssh'' \<noteq> None \<and>
     ObjectCommittedHandler example_shop_item
       (Host_SetServices ''shop''
          [(''https'', Scalar ''https-template''), (''ssh'', Scalar ''ssh-template'')] w1) =
       (Inr (), w2) \<and>
     ConfigItem_GetObject w2 ''Service'' ''shop-http'' = None \<and>
     ConfigItem_GetObject w2 ''Service'' ''shop-https'' \<noteq> None \<and>
     ConfigItem_GetObject w2 ''Service'' ''shop-ssh'' \<noteq> None"
proof -
  let ?descs' = "[(''https'', Scalar ''https-template''), (''ssh'', Scalar ''ssh-template'')]"
  have 1: "item_type example_shop_item = ''Host''"
    by (simp add: example_shop_item_def)
  have 2: "map_of (hosts example_shop_world) (item_name example_shop_item) = Some example_shop"
    by (simp add: example_shop_world_def example_shop_item_def)
  have 3: "\<forall>(k, v)\<in>set (inline_services example_shop). well_formed_description v"
    by (simp add: inline_services_def example_shop_def well_formed_description_def
        Dictionary_Get_def Value_to_String_def)
  have 4: "distinct (map fst (inline_services example_shop))"
    by (simp add: inline_services_def example_shop_def)
  have 5: "\<forall>(k, v)\<in>set ?descs'. well_formed_description v"
    by (simp add: well_formed_description_def)
  have 6: "distinct (map fst ?descs')"
    by simp
  have new: "synthesized_names example_shop_item example_shop = [''shop-http'', ''shop-ssh'']"
    by (simp add: synthesized_names_def inline_services_def example_shop_def example_shop_item_def)
  have old: "previously_synthesized example_shop = []"
    by (simp add: previously_synthesized_def example_shop_def)
  have name: "item_name example_shop_item = ''shop''"
    by (simp add: example_shop_item_def)
  note inst = C7_ObjectCommittedHandler_build_diff_swap [OF 1 2 3 4 5 6, unfolded new old name]
  from inst show ?thesis
    apply (elim exE conjE)
    subgoal for w1 h1 w2 h2
      apply (rule exI[of _ w1], rule exI[of _ w2])
      apply (simp add: example_shop_world_def initial_world_def)
      done
    done
qed

text \<open>Entries of the validated dictionary can be taken one part after the other.\<close>

lemma ValidateServiceDictionary_loop_append:
  "ValidateServiceDictionary_loop loc (xs @ ys) w =
     (case ValidateServiceDictionary_loop loc xs w of
        (Inl e, w') \<Rightarrow> (Inl e, w')
      | (Inr u, w') \<Rightarrow> ValidateServiceDictionary_loop loc ys w')"
  by (induction loc xs w rule: ValidateServiceDictionary_loop.induct)
     (simp_all split: sum.splits option.splits Value.splits)

lemma ValidateServiceDictionary_loop_skip:
  "\<not> IsScalar v \<Longrightarrow> \<not> IsDictionary v \<Longrightarrow>
     ValidateServiceDictionary_loop loc ((key, v) # ys) w = ValidateServiceDictionary_loop loc ys w"
  by (cases v) (simp_all add: IsScalar_def IsDictionary_def)

text \<open>
  C9, as claimed, fails: the host \<open>mail\<close> has a service description that is neither a
  scalar nor a dictionary. The handler ends with \<open>std::invalid_argument\<close> and nothing is
  added to the errors of the compiler context; \<open>ValidateServiceDictionary\<close> without
  arguments ends with \<open>std::invalid_argument\<close> as well.
\<close>

theorem C9_invalid_configuration_counterexample:
  "fst (ObjectCommittedHandler example_mail_item example_mail_world) =
     Inl (InvalidArgument ''Service description must be either a string or a dictionary.'') \<and>
   compiler_errors (snd (ObjectCommittedHandler example_mail_item example_mail_world)) = [] \<and>
   ValidateServiceDictionary [] example_mail_world =
     (Inl (InvalidArgument ''Missing argument: Location must be specified.''), example_mail_world)"
  by (simp add: ObjectCommittedHandler_def Host_Exists_def Host_GetByName_def
      example_mail_world_def example_mail_def example_mail_item_def initial_world_def
      build_service_item_def Let_def ConfigItem_Commit_def ValidateServiceDictionary_def)

text \<open>
  The build loop over a list of declarations in two parts, and its end at the first
  description that is neither a scalar nor a dictionary: the services declared before
  it have been committed.
\<close>

lemma ObjectCommittedHandler_build_append:
  "ObjectCommittedHandler_build item h (xs @ ys) new w =
     (case ObjectCommittedHandler_build item h xs new w of
        (Inl e, w') \<Rightarrow> (Inl e, w')
      | (Inr new', w') \<Rightarrow> ObjectCommittedHandler_build item h ys new' w')"
  by (induction item h xs new w rule: ObjectCommittedHandler_build.induct)
     (simp_all split: sum.splits)

lemma ObjectCommittedHandler_build_first_invalid:
  assumes "\<forall>(k, v)\<in>set pre. well_formed_description v" and "distinct (map fst pre)"
    and "\<not> IsScalar v" and "\<not> IsDictionary v"
  shows "ObjectCommittedHandler_build item h (pre @ (k, v) # post) [] w =
     (Inl (InvalidArgument ''Service description must be either a string or a dictionary.''),
      commit_all (map (built item h) pre) w)"
proof -
  have "ObjectCommittedHandler_build item h pre [] w =
      (Inr (map (\<lambda>d. (synthesized_name item (fst d), Some (built item h d))) pre),
       commit_all (map (built item h) pre) w)"
    using ObjectCommittedHandler_build_ok[OF assms(1,2), of item "[]" h w] by simp
  then show ?thesis
    unfolding ObjectCommittedHandler_build_append
    by (simp add: build_service_item_invalid[OF assms(3,4)])
qed

text \<open>
  C9, amended. An invalid configuration is thrown, not reported.
  \<open>ValidateServiceDictionary\<close> with fewer than two arguments throws
  \<open>std::invalid_argument\<close> and leaves the state as it is. \<open>ObjectCommittedHandler\<close> for a
  registered host throws \<open>std::invalid_argument\<close> at the first service description that
  is neither a scalar nor a dictionary: the services declared before it have been
  committed, no error is added to the compiler context, and the host keeps its stored
  set. Inside \<open>ValidateServiceDictionary\<close> an entry that is neither a scalar nor a
  dictionary is skipped: the call does what it does without the entry. What is
  reported, as an error naming the location, is a reference to a service that is not
  registered.
\<close>

theorem C9_invalid_configuration_is_thrown:
  "(length arguments < 2 \<longrightarrow>
      (\<exists>m. ValidateServiceDictionary arguments w = (Inl (InvalidArgument m), w))) \<and>
   (item_type item = ''Host'' \<and> map_of (hosts w) (item_name item) = Some h \<and>
    host_services h = Some (pre @ (k, v) # post) \<and>
    (\<forall>(k', v')\<in>set pre. well_formed_description v') \<and> distinct (map fst pre) \<and>
    \<not> IsScalar v \<and> \<not> IsDictionary v \<longrightarrow>
      (\<exists>w'. ObjectCommittedHandler item w =
         (Inl (InvalidArgument ''Service description must be either a string or a dictionary.''),
          w') \<and>
         compiler_errors w' = compiler_errors w \<and> hosts w' = hosts w \<and>
         registry_calls w' =
           registry_calls w @ map (\<lambda>(k', v'). Committed (item_name item @ ''-'' @ k')) pre)) \<and>
   (\<not> IsScalar v \<and> \<not> IsDictionary v \<longrightarrow>
      ValidateServiceDictionary [location, DictionaryObject (xs @ (key, v) # ys)] w =
      ValidateServiceDictionary [location, DictionaryObject (xs @ ys)] w) \<and>
   ValidateServiceDictionary [Scalar loc, DictionaryObject [(entry, Scalar name)]] w =
     (Inr (),
      if ConfigItem_GetObject w ''Service'' name = None
      then AddError False
             (''Validation failed for '' @ loc @ '': Service '' @ [CHR 0x27] @ name @
              [CHR 0x27] @ '' not found.'') w
      else w)"
proof (intro conjI impI)
  assume "length arguments < 2"
  then show "\<exists>m. ValidateServiceDictionary arguments w = (Inl (InvalidArgument m), w)"
    by (simp add: ValidateServiceDictionary_def)
next
  assume a: "item_type item = ''Host'' \<and> map_of (hosts w) (item_name item) = Some h \<and>
    host_services h = Some (pre @ (k, v) # post) \<and>
    (\<forall>(k', v')\<in>set pre. well_formed_description v') \<and> distinct (map fst pre) \<and>
    \<not> IsScalar v \<and> \<not> IsDictionary v"
  let ?w' = "commit_all (map (built item h) pre) w"
  let ?e = "InvalidArgument ''Service description must be either a string or a dictionary.''"
  from a have wf: "\<forall>(k', v')\<in>set pre. well_formed_description v'" and d: "distinct (map fst pre)"
    and v: "\<not> IsScalar v" "\<not> IsDictionary v"
    by simp_all
  have build: "ObjectCommittedHandler_build item h (pre @ (k, v) # post) [] w = (Inl ?e, ?w')"
    using wf d v by (rule ObjectCommittedHandler_build_first_invalid)
  from a have run: "ObjectCommittedHandler item w = (Inl ?e, ?w')"
    by (simp add: ObjectCommittedHandler_def Host_Exists_def Host_GetByName_def Let_def build)
  have "map item_name (map (built item h) pre) = map (\<lambda>d. synthesized_name item (fst d)) pre"
    using wf by (rule built_name_type(1))
  then have "map (\<lambda>i. Committed (item_name i)) (map (built item h) pre) =
      map (\<lambda>(k', v'). Committed (item_name item @ ''-'' @ k')) pre"
    by (simp add: synthesized_name_def case_prod_beta comp_def)
  then have calls: "registry_calls ?w' =
      registry_calls w @ map (\<lambda>(k', v'). Committed (item_name item @ ''-'' @ k')) pre"
    unfolding commit_all_calls by simp
  show "\<exists>w'. ObjectCommittedHandler item w = (Inl ?e, w') \<and>
         compiler_errors w' = compiler_errors w \<and> hosts w' = hosts w \<and>
         registry_calls w' =
           registry_calls w @ map (\<lambda>(k', v'). Committed (item_name item @ ''-'' @ k')) pre"
    apply (rule exI[of _ ?w'])
    apply (intro conjI)
       apply (rule run)
      apply (rule commit_all_frame(2))
     apply (rule commit_all_frame(1))
    apply (rule calls)
    done
next
  assume v: "\<not> IsScalar v \<and> \<not> IsDictionary v"
  have skip: "ValidateServiceDictionary_loop loc ((key, v) # ys) w' =
        ValidateServiceDictionary_loop loc ys w'" for loc w'
    using v by (intro ValidateServiceDictionary_loop_skip) simp_all
  have "ValidateServiceDictionary_loop loc (xs @ (key, v) # ys) w' =
        ValidateServiceDictionary_loop loc (xs @ ys) w'" for loc w'
    unfolding ValidateServiceDictionary_loop_append skip ..
  then show "ValidateServiceDictionary [location, DictionaryObject (xs @ (key, v) # ys)] w =
      ValidateServiceDictionary [location, DictionaryObject (xs @ ys)] w"
    by (simp add: ValidateServiceDictionary_def split: sum.splits)
next
  show "ValidateServiceDictionary [Scalar loc, DictionaryObject [(entry, Scalar name)]] w =
     (Inr (),
      if ConfigItem_GetObject w ''Service'' name = None
      then AddError False
             (''Validation failed for '' @ loc @ '': Service '' @ [CHR 0x27] @ name @
              [CHR 0x27] @ '' not found.'') w
      else w)"
    by (simp add: ValidateServiceDictionary_def Value_to_String_def)
qed

theorem C9_invalid_configuration_is_thrown_witness:
  "ValidateServiceDictionary [Scalar ''hosts.conf''] example_mail_world =
     (Inl (InvalidArgument ''Missing argument: Attribute dictionary must be specified.''),
      example_mail_world) \<and>
   (\<exists>w'. ObjectCommittedHandler example_mail_item example_mail_world =
      (Inl (InvalidArgument ''Service description must be either a string or a dictionary.''),
       w') \<and>
      compiler_errors w' = [] \<and> hosts w' = [(''mail'', example_mail)] \<and>
      registry_calls w' = [Committed ''mail-imap'']) \<and>
   ValidateServiceDictionary
       [Scalar ''hosts.conf'',
        DictionaryObject [(''imap'', Scalar ''imap-template''), (''smtp'', OtherObject)]]
       example_mail_world =
     (Inr (), AddError False ''Validation failed for hosts.conf: Service 'imap-template' not found.''
                example_mail_world)"
proof -
  note inst = C9_invalid_configuration_is_thrown [where
      arguments = "[Scalar ''hosts.conf'']" and w = example_mail_world and
      item = example_mail_item and h = example_mail and
      pre = "[(''imap'', Scalar ''imap-template'')]" and k = "''smtp''" and v = OtherObject and
      post = "[]" and location = "Scalar ''hosts.conf''" and
      xs = "[(''imap'', Scalar ''imap-template'')]" and key = "''smtp''" and ys = "[]" and
      loc = "''hosts.conf''" and entry = "''imap''" and name = "''imap-template''"]
  have 1: "ValidateServiceDictionary [Scalar ''hosts.conf''] example_mail_world =
     (Inl (InvalidArgument ''Missing argument: Attribute dictionary must be specified.''),
      example_mail_world)"
    using inst by (simp add: ValidateServiceDictionary_def)
  have 2: "\<exists>w'. ObjectCommittedHandler example_mail_item example_mail_world =
      (Inl (InvalidArgument ''Service description must be either a string or a dictionary.''),
       w') \<and>
      compiler_errors w' = [] \<and> hosts w' = [(''mail'', example_mail)] \<and>
      registry_calls w' = [Committed ''mail-imap'']"
    using inst
    by (simp add: example_mail_item_def example_mail_world_def example_mail_def
        IsScalar_def IsDictionary_def initial_world_def well_formed_description_def)
  have "ValidateServiceDictionary
       [Scalar ''hosts.conf'',
        DictionaryObject [(''imap'', Scalar ''imap-template''), (''smtp'', OtherObject)]]
       example_mail_world =
     ValidateServiceDictionary
       [Scalar ''hosts.conf'', DictionaryObject [(''imap'', Scalar ''imap-template'')]]
       example_mail_world"
    using inst by (simp add: IsScalar_def IsDictionary_def)
  also have "\<dots> = (Inr (), AddError False
       ''Validation failed for hosts.conf: Service 'imap-template' not found.''
                example_mail_world)"
    using inst
    by (simp add: ConfigItem_GetObject_def example_mail_world_def initial_world_def)
  finally show ?thesis using 1 2 by blast
qed

section \<open>Properties of the service cache\<close>

text \<open>The rebuild appends, per host name, the addresses of the services declaring it.\<close>

lemma ValidateServicesCache_loop_eq:
  "ValidateServicesCache_loop ss cache n =
     cache n @ map service_addr (filter (\<lambda>s. service_host_name s = n) ss)"
  by (induction ss arbitrary: cache) (simp_all add: Service_GetHost_GetName_def)

text \<open>Registration and unregistration keep the addresses unique.\<close>

lemma set_Dictionary_Set: "snd ` set (Dictionary_Set d k v) \<subseteq> insert v (snd ` set d)"
  by (induction d k v rule: Dictionary_Set.induct) auto

lemma distinct_Dictionary_Set:
  "distinct (map f (map snd d)) \<Longrightarrow> f v \<notin> f ` snd ` set d \<Longrightarrow>
     distinct (map f (map snd (Dictionary_Set d k v)))"
proof (induction d k v rule: Dictionary_Set.induct)
  case (1 key v)
  then show ?case by simp
next
  case (2 k x d key v)
  show ?case
  proof (cases "k = key")
    case True
    with 2(2,3) show ?thesis by (auto simp add: image_image)
  next
    case False
    have "f x \<notin> f ` snd ` set (Dictionary_Set d key v)"
    proof
      assume "f x \<in> f ` snd ` set (Dictionary_Set d key v)"
      then have "f x \<in> f ` insert v (snd ` set d)"
        using set_Dictionary_Set[of d key v] by blast
      with 2(2,3) show False by auto
    qed
    moreover have "distinct (map f (map snd (Dictionary_Set d key v)))"
      using 2 False by simp
    ultimately show ?thesis using False by (simp add: image_image)
  qed
qed

lemma addresses_unique_initial: "addresses_unique initial_world"
  by (simp add: addresses_unique_def initial_world_def)

lemma addresses_unique_Register:
  assumes "addresses_unique w"
  shows "addresses_unique (Service_Register s w)"
proof -
  let ?s = "s\<lparr>service_addr := next_addr w\<rparr>"
  let ?d = "Dictionary_Set (services w) (service_name s) ?s"
  from assms have d: "distinct (map service_addr (map snd (services w)))"
    and b: "\<forall>x\<in>set (map snd (services w)). service_addr x < next_addr w"
    by (simp_all add: addresses_unique_def)
  from b have fresh: "service_addr ?s \<notin> service_addr ` snd ` set (services w)"
    by auto
  have "distinct (map service_addr (map snd ?d))"
    using d fresh by (rule distinct_Dictionary_Set)
  moreover have "\<forall>x\<in>set (map snd ?d). service_addr x < Suc (next_addr w)"
  proof
    fix x assume "x \<in> set (map snd ?d)"
    then have "x \<in> insert ?s (snd ` set (services w))"
      using set_Dictionary_Set[of "services w" "service_name s" ?s] by auto
    with b show "service_addr x < Suc (next_addr w)" by auto
  qed
  ultimately show ?thesis
    by (simp add: addresses_unique_def Service_Register_def)
qed

lemma addresses_unique_Unregister:
  assumes "addresses_unique w"
  shows "addresses_unique (Service_Unregister name w)"
proof -
  let ?P = "\<lambda>(n, s). n \<noteq> name"
  from assms have "distinct (map (service_addr \<circ> snd) (services w))"
    by (simp add: addresses_unique_def)
  then have "distinct (map (service_addr \<circ> snd) (filter ?P (services w)))"
    by (rule distinct_map_filter)
  moreover from assms
  have "\<forall>s\<in>set (map snd (filter ?P (services w))). service_addr s < next_addr w"
    by (auto simp add: addresses_unique_def)
  ultimately show ?thesis
    by (simp add: addresses_unique_def Service_Unregister_def)
qed

lemma addresses_unique_apply_ops:
  "addresses_unique w \<Longrightarrow> addresses_unique (apply_ops ops w)"
proof (induction ops arbitrary: w)
  case Nil
  then show ?case by simp
next
  case (Cons x xs)
  then show ?case
    by (cases x) (simp_all add: addresses_unique_Register addresses_unique_Unregister)
qed

text \<open>A weak pointer locks to a live object only, and to the object it was taken from.\<close>

lemma find_unique:
  "distinct (map f xs) \<Longrightarrow> x \<in> set xs \<Longrightarrow> List.find (\<lambda>y. f y = f x) xs = Some x"
  by (induction xs) (auto simp add: rev_image_eqI)

lemma lock_Some:
  "lock w a = Some s \<Longrightarrow> s \<in> set (map snd (services w)) \<and> service_addr s = a"
  unfolding lock_def by (auto simp add: find_Some_iff)

lemma lock_live:
  "addresses_unique w \<Longrightarrow> s \<in> set (map snd (services w)) \<Longrightarrow> lock w (service_addr s) = Some s"
  unfolding lock_def addresses_unique_def by (simp add: find_unique)

lemma GetServices_loop_set:
  "set (GetServices_loop w as found) = set found \<union> {s. \<exists>a\<in>set as. lock w a = Some s}"
  by (induction as arbitrary: found) (auto split: option.splits)

lemma GetServices_loop_distinct:
  "distinct found \<Longrightarrow> distinct (GetServices_loop w as found)"
  by (induction as arbitrary: found) (auto split: option.splits)

lemma GetServices_rebuild:
  assumes "addresses_unique w" and "\<not> m_ServicesCacheValid w"
  shows "set (fst (GetServices w h)) =
           {s. s \<in> snd ` set (services w) \<and> service_host_name s = host_name h}"
    and "distinct (fst (GetServices w h))"
    and "m_ServicesCacheValid (snd (GetServices w h))"
    and "services (snd (GetServices w h)) = services w"
    and "m_ServicesCache (snd (GetServices w h)) n =
           map service_addr (filter (\<lambda>s. service_host_name s = n) (map snd (services w)))"
proof -
  let ?ss = "map snd (services w)"
  let ?w' = "w\<lparr>m_ServicesCache := ValidateServicesCache_loop ?ss (\<lambda>n. []),
               m_ServicesCacheValid := True\<rparr>"
  have v: "ValidateServicesCache w = ?w'"
    using assms(2) by (simp add: ValidateServicesCache_def)
  have cache: "m_ServicesCache ?w' n =
      map service_addr (filter (\<lambda>s. service_host_name s = n) ?ss)" for n
    by (simp add: ValidateServicesCache_loop_eq)
  have g: "GetServices w h = (GetServices_loop ?w' (m_ServicesCache ?w' (host_name h)) [], ?w')"
    by (simp add: GetServices_def v Let_def)
  have lock: "lock ?w' a = lock w a" for a
    by (simp add: lock_def)
  show "distinct (fst (GetServices w h))"
    unfolding g by (simp add: GetServices_loop_distinct)
  show "m_ServicesCacheValid (snd (GetServices w h))"
    unfolding g by simp
  show "services (snd (GetServices w h)) = services w"
    unfolding g by simp
  show "m_ServicesCache (snd (GetServices w h)) n =
           map service_addr (filter (\<lambda>s. service_host_name s = n) ?ss)"
    unfolding g using cache by simp
  have "set (fst (GetServices w h)) =
      {s. \<exists>a\<in>set (map service_addr (filter (\<lambda>s. service_host_name s = host_name h) ?ss)).
            lock w a = Some s}"
    unfolding g fst_conv GetServices_loop_set cache lock by simp
  also have "\<dots> = {s. s \<in> set ?ss \<and> service_host_name s = host_name h}"
  proof (intro set_eqI iffI; clarify)
    fix s a
    assume a: "a \<in> set (map service_addr (filter (\<lambda>s. service_host_name s = host_name h) ?ss))"
      and l: "lock w a = Some s"
    from a obtain s' where s': "s' \<in> set ?ss" "service_host_name s' = host_name h"
      "a = service_addr s'"
      by auto
    from lock_live[OF assms(1) s'(1)] l s'(3) have "s = s'" by simp
    with s' show "s \<in> set ?ss \<and> service_host_name s = host_name h" by simp
  next
    fix s
    assume s: "s \<in> set ?ss" "service_host_name s = host_name h"
    then have "service_addr s \<in> set (map service_addr
        (filter (\<lambda>s. service_host_name s = host_name h) ?ss))"
      by simp
    moreover have "lock w (service_addr s) = Some s"
      using lock_live[OF assms(1) s(1)] .
    ultimately show "\<exists>a\<in>set (map service_addr
        (filter (\<lambda>s. service_host_name s = host_name h) ?ss)). lock w a = Some s"
      by (rule bexI[rotated])
  qed
  finally show "set (fst (GetServices w h)) =
           {s. s \<in> snd ` set (services w) \<and> service_host_name s = host_name h}"
    by simp
qed

lemma GetServices_live: "s \<in> set (fst (GetServices w h)) \<Longrightarrow> s \<in> snd ` set (services w)"
proof -
  assume "s \<in> set (fst (GetServices w h))"
  then obtain a where "lock (ValidateServicesCache w) a = Some s"
    by (auto simp add: GetServices_def Let_def GetServices_loop_set)
  then have "s \<in> set (map snd (services (ValidateServicesCache w)))"
    using lock_Some by blast
  then show ?thesis
    by (simp add: ValidateServicesCache_def split: if_splits)
qed

text \<open>
  C8. After any sequence of service registrations and unregistrations, starting from
  the state of a fresh process and followed by a cache invalidation, \<open>GetServices\<close> for
  a host returns exactly the registered (live) services whose declared host name is
  the host's name, each once; the rebuild leaves the cache valid and the registry as
  it was, and the rebuilt cache holds, for every host name, the addresses of the live
  services that declare it, in the order of the scan. In any state at all,
  \<open>GetServices\<close> returns live services only: a cache entry whose service has been
  destroyed is dropped.
\<close>

theorem C8_GetServices_after_invalidation:
  "set (fst (GetServices (InvalidateServicesCache (apply_ops ops initial_world)) h)) =
     {s. s \<in> snd ` set (services (apply_ops ops initial_world)) \<and>
         service_host_name s = host_name h} \<and>
   distinct (fst (GetServices (InvalidateServicesCache (apply_ops ops initial_world)) h)) \<and>
   m_ServicesCacheValid
     (snd (GetServices (InvalidateServicesCache (apply_ops ops initial_world)) h)) \<and>
   services (snd (GetServices (InvalidateServicesCache (apply_ops ops initial_world)) h)) =
     services (apply_ops ops initial_world) \<and>
   (\<forall>n. m_ServicesCache
          (snd (GetServices (InvalidateServicesCache (apply_ops ops initial_world)) h)) n =
        map service_addr (filter (\<lambda>s. service_host_name s = n)
          (map snd (services (apply_ops ops initial_world))))) \<and>
   (\<forall>s\<in>set (fst (GetServices w0 h)). s \<in> snd ` set (services w0))"
proof -
  let ?w = "InvalidateServicesCache (apply_ops ops initial_world)"
  have s: "services ?w = services (apply_ops ops initial_world)"
    by (simp add: InvalidateServicesCache_def)
  have "addresses_unique (apply_ops ops initial_world)"
    by (intro addresses_unique_apply_ops addresses_unique_initial)
  then have u: "addresses_unique ?w"
    by (simp add: addresses_unique_def InvalidateServicesCache_def)
  have i: "\<not> m_ServicesCacheValid ?w"
    by (simp add: InvalidateServicesCache_def)
  note r = GetServices_rebuild[OF u i, unfolded s]
  show ?thesis
    using r(1)[of h] r(2)[of h] r(3)[of h] r(4)[of h] r(5)[of h] GetServices_live[of _ w0 h]
    by blast
qed

lemma example_ops_services:
  "services (apply_ops example_ops initial_world) =
     [(''web-http'', example_http\<lparr>service_addr := 1\<rparr>), (''dns'', example_dns\<lparr>service_addr := 2\<rparr>)]"
  by (simp add: example_ops_def initial_world_def Service_Register_def Service_Unregister_def
      example_ping_def example_http_def example_dns_def)

theorem C8_GetServices_after_invalidation_witness:
  "set (fst (GetServices (InvalidateServicesCache (apply_ops example_ops initial_world))
              example_web)) = {example_http\<lparr>service_addr := 1\<rparr>} \<and>
   fst (GetServices
          (Service_Unregister ''web-http''
             (snd (GetServices (InvalidateServicesCache (apply_ops example_ops initial_world))
                     example_web)))
          example_web) = []"
proof -
  let ?w = "InvalidateServicesCache (apply_ops example_ops initial_world)"
  let ?w' = "snd (GetServices ?w example_web)"
  note inst = C8_GetServices_after_invalidation [of example_ops example_web ?w]
  have found: "set (fst (GetServices ?w example_web)) = {example_http\<lparr>service_addr := 1\<rparr>}"
    unfolding inst[THEN conjunct1] example_ops_services
    by (auto simp add: example_http_def example_dns_def example_web_def)
  have valid: "m_ServicesCacheValid ?w'"
    using inst by blast
  have svcs: "services ?w' =
      [(''web-http'', example_http\<lparr>service_addr := 1\<rparr>), (''dns'', example_dns\<lparr>service_addr := 2\<rparr>)]"
    using inst example_ops_services by simp
  have cache: "m_ServicesCache ?w' ''web'' = [1]"
    using inst[THEN conjunct2, THEN conjunct2, THEN conjunct2, THEN conjunct2, THEN conjunct1,
        rule_format, of "''web''"]
    unfolding example_ops_services by (simp add: example_http_def example_dns_def)
  have "fst (GetServices (Service_Unregister ''web-http'' ?w') example_web) = []"
    using valid svcs cache
    by (simp add: GetServices_def ValidateServicesCache_def Service_Unregister_def Let_def
        lock_def example_web_def example_dns_def)
  with found show ?thesis by simp
qed

end
